theory Spec2Isabelle
  imports Main "HOL-Library.Word" "HOL-Library.AList"
begin

section \<open>Package db: the transactional facade over the SQL connection pool\<close>

text \<open>
  The development follows \<^verbatim>\<open>db/database.go\<close>. Go values are modelled as follows.
  \<^item> An \<^verbatim>\<open>error\<close> is an \<open>'e option\<close>: \<open>None\<close> is \<^verbatim>\<open>nil\<close>, \<open>Some e\<close> a non-nil error
    value \<open>e\<close>; equality on \<open>'e\<close> is the identity of the error value.
  \<^item> An \<^verbatim>\<open>interface{}\<close> result is an \<open>'r option\<close>, \<open>None\<close> being \<^verbatim>\<open>nil\<close>.
  \<^item> A \<^verbatim>\<open>time.Duration\<close> is a 64-bit word, and so is the \<^verbatim>\<open>int\<close> in which the delay is
    computed; multiplication wraps as Go's does.
  \<^item> The loop counter \<^verbatim>\<open>attempt\<close> starts at 0 and is only incremented below the
    bound, so it is a natural number.
  \<^item> Loggers and contexts are opaque values of the types \<open>'lg\<close> and \<open>'cx\<close>.
\<close>

type_synonym duration = "64 word"

subsection \<open>Options\<close>

text \<open>\<^verbatim>\<open>QueryOptions\<close>, the per-facade logger and context.\<close>

record ('lg, 'cx) QueryOptions =
  logger :: 'lg
  ctx :: 'cx

text \<open>
  \<^verbatim>\<open>TxOptions\<close> is declared in a file of the package that is not part of the sources at
  hand; \<^verbatim>\<open>Transact\<close> and \<^verbatim>\<open>getTxOptions\<close> read and write the four fields below. The
  fields \<^verbatim>\<open>logger\<close> and \<^verbatim>\<open>ctx\<close> carry the prefix \<open>tx_\<close> here, since the names are
  taken by \<^verbatim>\<open>QueryOptions\<close>. \<^verbatim>\<open>sql.IsolationLevel\<close> is an integer enumeration.
\<close>

record ('lg, 'cx) TxOptions =
  tx_logger :: 'lg
  tx_ctx :: 'cx
  isolationLevel :: int
  readOnly :: bool

type_synonym ('lg, 'cx) TxOpt = "('lg, 'cx) TxOptions \<Rightarrow> ('lg, 'cx) TxOptions"

subsection \<open>Declarations used by the file and made elsewhere\<close>

text \<open>
  The constants \<^verbatim>\<open>SerializationRetryMaxAttempts\<close> and
  \<^verbatim>\<open>SerializationRetryStartInterval\<close>, the classifier \<^verbatim>\<open>IsSerializationError\<close>, the
  sentinel \<^verbatim>\<open>ErrSerialization\<close> and \<^verbatim>\<open>DefaultTxOptions\<close> belong to the package but not
  to this file; \<^verbatim>\<open>logging.Default\<close>, \<^verbatim>\<open>logging.Dummy\<close>, \<^verbatim>\<open>Logger.WithContext\<close> and
  \<^verbatim>\<open>context.Background\<close> are library calls. All of them are parameters of the model.
\<close>

record ('e, 'lg, 'cx) env =
  SerializationRetryMaxAttempts :: nat
  SerializationRetryStartInterval :: duration
  IsSerializationError :: "'e \<Rightarrow> bool"
  ErrSerialization :: 'e
  DefaultTxOptions :: "('lg, 'cx) TxOptions"
  logging_Default :: 'lg
  logging_Dummy :: 'lg
  logger_WithContext :: "'lg \<Rightarrow> 'cx \<Rightarrow> 'lg"
  context_Background :: 'cx

subsection \<open>The facade and the objects it points to\<close>

text \<open>
  \<^verbatim>\<open>SqlxDatabase\<close> holds two pointers. Objects live in a store; a pointer is an address
  (a natural number), the optional \<^verbatim>\<open>queryOptions\<close> pointer is \<open>None\<close> when \<^verbatim>\<open>nil\<close>.
  The \<^verbatim>\<open>*sqlx.DB\<close> connection pool is an external object of which only the address
  matters here. Allocation takes the next unused address.
\<close>

record SqlxDatabase =
  db :: nat
  queryOptions :: "nat option"

record ('lg, 'cx) heap =
  facade_at :: "nat \<Rightarrow> SqlxDatabase"
  opts_at :: "nat \<Rightarrow> ('lg, 'cx) QueryOptions"
  facade_next :: nat
  opts_next :: nat

definition NewSqlxDatabase :: "('lg, 'cx) heap \<Rightarrow> nat \<Rightarrow> ('lg, 'cx) heap \<times> nat" where
  "NewSqlxDatabase h p =
     (h\<lparr>facade_at := (facade_at h)(facade_next h := \<lparr>db = p, queryOptions = None\<rparr>),
        facade_next := Suc (facade_next h)\<rparr>,
      facade_next h)"

definition getLogger :: "('e, 'lg, 'cx) env \<Rightarrow> ('lg, 'cx) heap \<Rightarrow> nat \<Rightarrow> 'lg" where
  "getLogger E h d =
     (case queryOptions (facade_at h d) of
        Some q \<Rightarrow> logger (opts_at h q)
      | None \<Rightarrow> logging_Default E)"

definition getContext :: "('e, 'lg, 'cx) env \<Rightarrow> ('lg, 'cx) heap \<Rightarrow> nat \<Rightarrow> 'cx" where
  "getContext E h d =
     (case queryOptions (facade_at h d) of
        Some q \<Rightarrow> ctx (opts_at h q)
      | None \<Rightarrow> context_Background E)"

definition WithContext ::
  "('e, 'lg, 'cx) env \<Rightarrow> ('lg, 'cx) heap \<Rightarrow> nat \<Rightarrow> 'cx \<Rightarrow> ('lg, 'cx) heap \<times> nat" where
  "WithContext E h d c =
     (let q = opts_next h; a = facade_next h
      in (h\<lparr>opts_at := (opts_at h)
                (q := \<lparr>logger = logger_WithContext E (logging_Default E) c, ctx = c\<rparr>),
            opts_next := Suc q,
            facade_at := (facade_at h)
                (a := \<lparr>db = db (facade_at h d), queryOptions = Some q\<rparr>),
            facade_next := Suc a\<rparr>,
          a))"

definition getTxOptions ::
  "('e, 'lg, 'cx) env \<Rightarrow> ('lg, 'cx) heap \<Rightarrow> nat \<Rightarrow> ('lg, 'cx) TxOptions" where
  "getTxOptions E h d =
     (let options = DefaultTxOptions E
      in case queryOptions (facade_at h d) of
           Some q \<Rightarrow> options\<lparr>tx_logger := logger (opts_at h q), tx_ctx := ctx (opts_at h q)\<rparr>
         | None \<Rightarrow> options)"

subsection \<open>What a call of Transact meets and what it does\<close>

text \<open>
  During one call of \<^verbatim>\<open>Transact\<close> the pool and the caller's function are each invoked at
  most once per iteration of the loop, and \<^verbatim>\<open>attempt\<close> counts the iterations. Their
  answers are therefore given per value of \<^verbatim>\<open>attempt\<close>: \<open>BeginTxx S i\<close> is the error of
  \<^verbatim>\<open>d.db.BeginTxx\<close> in iteration \<open>i\<close>, \<open>fn S i\<close> the pair returned by \<^verbatim>\<open>fn\<close>,
  \<open>Rollback S i\<close> and \<open>Commit S i\<close> the errors of \<^verbatim>\<open>tx.Rollback\<close> and \<^verbatim>\<open>tx.Commit\<close>.
\<close>

record ('r, 'e) script =
  BeginTxx :: "nat \<Rightarrow> 'e option"
  fn :: "nat \<Rightarrow> 'r option \<times> 'e option"
  Rollback :: "nat \<Rightarrow> 'e option"
  Commit :: "nat \<Rightarrow> 'e option"

text \<open>The calls \<^verbatim>\<open>Transact\<close> makes, in order, with the arguments that matter.\<close>

datatype ('lg, 'cx) event =
    EvRetryInc
  | EvWarnRetry 'lg nat duration
  | EvSleep duration
  | EvBeginTxx 'cx int bool
  | EvFn
  | EvRollback
  | EvCommit
  | EvWarnFinal 'lg nat

datatype ('r, 'e) step = Continue | Return "'r option" "'e option"

record ('r, 'e, 'lg, 'cx) outcome =
  ret :: "'r option"
  err :: "'e option"
  trace :: "('lg, 'cx) event list"

text \<open>One iteration of the loop of \<^verbatim>\<open>Transact\<close>: the calls it makes and how it ends.\<close>

definition Transact_attempt ::
  "('e, 'lg, 'cx) env \<Rightarrow> ('r, 'e) script \<Rightarrow> ('lg, 'cx) TxOptions \<Rightarrow> nat
     \<Rightarrow> ('lg, 'cx) event list \<times> ('r, 'e) step" where
  "Transact_attempt E S options attempt =
     (let duration = SerializationRetryStartInterval E * of_nat attempt;
          pre = (if attempt > 0
                 then [EvRetryInc, EvWarnRetry (tx_logger options) attempt duration,
                       EvSleep duration]
                 else []);
          bg = EvBeginTxx (tx_ctx options) (isolationLevel options) (readOnly options)
      in case BeginTxx S attempt of
           Some e \<Rightarrow> (pre @ [bg], Return None (Some e))
         | None \<Rightarrow>
             (case fn S attempt of
                (r, Some e) \<Rightarrow>
                  (case Rollback S attempt of
                     Some rollbackErr \<Rightarrow>
                       (pre @ [bg, EvFn, EvRollback], Return None (Some rollbackErr))
                   | None \<Rightarrow>
                       if IsSerializationError E e
                       then (pre @ [bg, EvFn, EvRollback], Continue)
                       else (pre @ [bg, EvFn, EvRollback], Return None (Some e)))
              | (r, None) \<Rightarrow>
                  (case Commit S attempt of
                     Some e \<Rightarrow>
                       if IsSerializationError E e
                       then (pre @ [bg, EvFn, EvCommit], Continue)
                       else (pre @ [bg, EvFn, EvCommit], Return None (Some e))
                   | None \<Rightarrow> (pre @ [bg, EvFn, EvCommit], Return r None))))"

function Transact_loop ::
  "('e, 'lg, 'cx) env \<Rightarrow> ('r, 'e) script \<Rightarrow> ('lg, 'cx) TxOptions \<Rightarrow> nat
     \<Rightarrow> ('lg, 'cx) event list \<Rightarrow> ('r, 'e, 'lg, 'cx) outcome" where
  "Transact_loop E S options attempt log =
     (if attempt < SerializationRetryMaxAttempts E
      then (let (evs, st) = Transact_attempt E S options attempt
            in case st of
                 Continue \<Rightarrow> Transact_loop E S options (Suc attempt) (log @ evs)
               | Return r e \<Rightarrow> \<lparr>ret = r, err = e, trace = log @ evs\<rparr>)
      else \<lparr>ret = None, err = Some (ErrSerialization E),
            trace = log @ (if attempt = SerializationRetryMaxAttempts E
                           then [EvWarnFinal (tx_logger options) attempt] else [])\<rparr>)"
  by pat_completeness auto
termination
  by (relation "measure (\<lambda>(E, S, options, attempt, log). SerializationRetryMaxAttempts E - attempt)")
     auto

definition Transact ::
  "('e, 'lg, 'cx) env \<Rightarrow> ('lg, 'cx) heap \<Rightarrow> nat \<Rightarrow> ('r, 'e) script \<Rightarrow> ('lg, 'cx) TxOpt list
     \<Rightarrow> ('r, 'e, 'lg, 'cx) outcome" where
  "Transact E h d S opts =
     (let options = foldl (\<lambda>options opt. opt options) (getTxOptions E h d) opts
      in Transact_loop E S options 0 [])"

subsection \<open>Metadata and the version queries\<close>

text \<open>
  The values that pass through \<^verbatim>\<open>Transact\<close> as \<^verbatim>\<open>interface{}\<close> in this file: a string
  (the two version queries) or a \<^verbatim>\<open>map[string]string\<close> (the settings). A Go map is kept
  as an association list with distinct keys, written with \<open>AList.update\<close>; ranging over
  it visits each key once, and the order of the visits does not change what the loop of
  \<^verbatim>\<open>Metadata\<close> builds, so the order of the list is taken.
\<close>

datatype goval = GoString string | GoSettings "(string \<times> string) list"

text \<open>A row of \<^verbatim>\<open>pg_settings\<close>, as the closure of \<^verbatim>\<open>Metadata\<close> declares it.\<close>

record pgSettings =
  Name :: string
  Setting :: string

text \<open>
  What one of the three queries meets: the answers of the pool and of the transaction as
  in a \<open>script\<close>, and \<open>run_query Q i\<close>, the answer of \<^verbatim>\<open>tx.Get\<close> or \<^verbatim>\<open>tx.Select\<close> in
  iteration \<open>i\<close>: an error, or the value read into the destination.
\<close>

record ('a, 'e) txrun =
  run_begin :: "nat \<Rightarrow> 'e option"
  run_query :: "nat \<Rightarrow> 'e + 'a"
  run_rollback :: "nat \<Rightarrow> 'e option"
  run_commit :: "nat \<Rightarrow> 'e option"

text \<open>The database server as \<^verbatim>\<open>Metadata\<close> meets it: one run for each of its queries.\<close>

record 'e server =
  version_run :: "(string, 'e) txrun"
  aurora_run :: "(string, 'e) txrun"
  settings_run :: "(pgSettings list, 'e) txrun"

text \<open>The script of a call whose function is the closure \<open>f\<close>.\<close>

definition closure_script ::
  "(nat \<Rightarrow> goval option \<times> 'e option) \<Rightarrow> ('a, 'e) txrun \<Rightarrow> (goval, 'e) script" where
  "closure_script f Q =
     \<lparr>BeginTxx = run_begin Q, fn = f, Rollback = run_rollback Q, Commit = run_commit Q\<rparr>"

text \<open>
  Modelled from the spec: the option functions \<^verbatim>\<open>ReadOnly\<close> and \<^verbatim>\<open>WithLogger\<close> are
  declared in a file of the package that is not among the sources. \<^verbatim>\<open>ReadOnly()\<close> sets
  \<^verbatim>\<open>readOnly\<close> to true; \<^verbatim>\<open>WithLogger(l)\<close> overrides the logger.
\<close>

definition ReadOnly :: "('lg, 'cx) TxOpt" where
  "ReadOnly = (\<lambda>options. options\<lparr>readOnly := True\<rparr>)"

definition WithLogger :: "'lg \<Rightarrow> ('lg, 'cx) TxOpt" where
  "WithLogger l = (\<lambda>options. options\<lparr>tx_logger := l\<rparr>)"

text \<open>\<^verbatim>\<open>strings.HasPrefix\<close> and \<^verbatim>\<open>strconv.FormatBool\<close>.\<close>

definition HasPrefix :: "string \<Rightarrow> string \<Rightarrow> bool" where
  "HasPrefix s prefix = (take (length prefix) s = prefix)"

definition FormatBool :: "bool \<Rightarrow> string" where
  "FormatBool b = (if b then ''true'' else ''false'')"

text \<open>
  The closure of \<^verbatim>\<open>getVersion\<close> returns the empty string, not nil, beside an error.
  The type assertion \<^verbatim>\<open>v.(string)\<close> panics on any other value than a string; a panic is
  the result \<open>None\<close>.
\<close>

definition getVersion_fn :: "(string, 'e) txrun \<Rightarrow> nat \<Rightarrow> goval option \<times> 'e option" where
  "getVersion_fn Q i =
     (case run_query Q i of
        Inl e \<Rightarrow> (Some (GoString ''''), Some e)
      | Inr v \<Rightarrow> (Some (GoString v), None))"

definition getVersion ::
  "('e, 'lg, 'cx) env \<Rightarrow> ('lg, 'cx) heap \<Rightarrow> nat \<Rightarrow> (string, 'e) txrun
     \<Rightarrow> (string \<times> 'e option) option" where
  "getVersion E h d Q =
     (let R = Transact E h d (closure_script (getVersion_fn Q) Q)
                [ReadOnly, WithLogger (logging_Dummy E)]
      in case err R of
           Some e \<Rightarrow> Some ('''', Some e)
         | None \<Rightarrow>
            (case ret R of
               Some (GoString v) \<Rightarrow> Some (v, None)
             | _ \<Rightarrow> None))"

definition getAuroraVersion_fn :: "(string, 'e) txrun \<Rightarrow> nat \<Rightarrow> goval option \<times> 'e option" where
  "getAuroraVersion_fn Q i =
     (case run_query Q i of
        Inl e \<Rightarrow> (Some (GoString ''''), Some e)
      | Inr v \<Rightarrow> (Some (GoString v), None))"

definition getAuroraVersion ::
  "('e, 'lg, 'cx) env \<Rightarrow> ('lg, 'cx) heap \<Rightarrow> nat \<Rightarrow> (string, 'e) txrun
     \<Rightarrow> (string \<times> 'e option) option" where
  "getAuroraVersion E h d Q =
     (let R = Transact E h d (closure_script (getAuroraVersion_fn Q) Q)
                [ReadOnly, WithLogger (logging_Dummy E)]
      in case err R of
           Some e \<Rightarrow> Some ('''', Some e)
         | None \<Rightarrow>
            (case ret R of
               Some (GoString v) \<Rightarrow> Some (v, None)
             | _ \<Rightarrow> None))"

text \<open>
  The loop of the closure of \<^verbatim>\<open>Metadata\<close> over the rows read: the row \<^verbatim>\<open>data_directory\<close>
  becomes the key \<^verbatim>\<open>is_rds\<close>.
\<close>

fun collect_settings ::
  "pgSettings list \<Rightarrow> (string \<times> string) list \<Rightarrow> (string \<times> string) list" where
  "collect_settings [] settings = settings"
| "collect_settings (setting # pgs) settings =
     (if Name setting = ''data_directory''
      then collect_settings pgs
             (AList.update ''is_rds'' (FormatBool (HasPrefix (Setting setting) ''/rdsdata''))
                settings)
      else collect_settings pgs (AList.update (Name setting) (Setting setting) settings))"

definition Metadata_fn :: "(pgSettings list, 'e) txrun \<Rightarrow> nat \<Rightarrow> goval option \<times> 'e option" where
  "Metadata_fn Q i =
     (case run_query Q i of
        Inl e \<Rightarrow> (None, Some e)
      | Inr pgs \<Rightarrow> (Some (GoSettings (collect_settings pgs [])), None))"

text \<open>The loop of \<^verbatim>\<open>Metadata\<close> over the settings, writing each under the prefixed key.\<close>

fun merge_settings ::
  "(string \<times> string) list \<Rightarrow> (string \<times> string) list \<Rightarrow> (string \<times> string) list" where
  "merge_settings [] metadata = metadata"
| "merge_settings ((k, v) # settings) metadata =
     merge_settings settings (AList.update (''postgresql_setting_'' @ k) v metadata)"

text \<open>
  \<^verbatim>\<open>Metadata\<close>. The closure also assigns its error to the variable \<^verbatim>\<open>err\<close> of
  \<^verbatim>\<open>Metadata\<close>, which the assignment of the result of \<^verbatim>\<open>Transact\<close> overwrites. \<open>None\<close> is
  a panic of one of the type assertions.
\<close>

definition Metadata ::
  "('e, 'lg, 'cx) env \<Rightarrow> ('lg, 'cx) heap \<Rightarrow> nat \<Rightarrow> 'e server
     \<Rightarrow> ((string \<times> string) list \<times> 'e option) option" where
  "Metadata E h d W =
     (case getVersion E h d (version_run W) of
        None \<Rightarrow> None
      | Some (version, err1) \<Rightarrow>
         (let metadata1 = (if err1 = None then AList.update ''postgresql_version'' version []
                           else [])
          in case getAuroraVersion E h d (aurora_run W) of
               None \<Rightarrow> None
             | Some (auroraVersion, err2) \<Rightarrow>
                (let metadata2 =
                       (if err2 = None
                        then AList.update ''postgresql_aurora_version'' auroraVersion metadata1
                        else metadata1);
                     R = Transact E h d
                           (closure_script (Metadata_fn (settings_run W)) (settings_run W))
                           [ReadOnly]
                 in case err R of
                      Some e \<Rightarrow> Some (metadata2, None)
                    | None \<Rightarrow>
                       (case ret R of
                          Some (GoSettings settings) \<Rightarrow>
                            Some (merge_settings settings metadata2, None)
                        | _ \<Rightarrow> None))))"

text \<open>The third query of \<^verbatim>\<open>Metadata\<close> on its own, and the settings a result holds.\<close>

definition settings_query ::
  "('e, 'lg, 'cx) env \<Rightarrow> ('lg, 'cx) heap \<Rightarrow> nat \<Rightarrow> 'e server
     \<Rightarrow> (goval, 'e, 'lg, 'cx) outcome" where
  "settings_query E h d W =
     Transact E h d (closure_script (Metadata_fn (settings_run W)) (settings_run W)) [ReadOnly]"

definition settings_of :: "goval option \<Rightarrow> string \<Rightarrow> string option" where
  "settings_of r = (case r of Some (GoSettings settings) \<Rightarrow> map_of settings | _ \<Rightarrow> Map.empty)"

subsection \<open>Notions used to state the properties\<close>

text \<open>The options in force during a call: the facade's, then each option function in turn.\<close>

definition applied_options ::
  "('e, 'lg, 'cx) env \<Rightarrow> ('lg, 'cx) heap \<Rightarrow> nat \<Rightarrow> ('lg, 'cx) TxOpt list \<Rightarrow> ('lg, 'cx) TxOptions" where
  "applied_options E h d opts = foldl (\<lambda>options opt. opt options) (getTxOptions E h d) opts"

text \<open>
  Iteration \<open>i\<close> ends in a classified conflict: the transaction began, and either \<^verbatim>\<open>fn\<close>
  failed with a serialization error and the rollback went through, or \<^verbatim>\<open>fn\<close> succeeded
  and the commit failed with a serialization error.
\<close>

definition retried :: "('e, 'lg, 'cx) env \<Rightarrow> ('r, 'e) script \<Rightarrow> nat \<Rightarrow> bool" where
  "retried E S i =
     (BeginTxx S i = None \<and>
      (case snd (fn S i) of
         Some e \<Rightarrow> Rollback S i = None \<and> IsSerializationError E e
       | None \<Rightarrow> (case Commit S i of Some e \<Rightarrow> IsSerializationError E e | None \<Rightarrow> False)))"

text \<open>Iteration \<open>i\<close> is run: it is within the bound and every earlier one was retried.\<close>

definition reached :: "('e, 'lg, 'cx) env \<Rightarrow> ('r, 'e) script \<Rightarrow> nat \<Rightarrow> bool" where
  "reached E S i = (i < SerializationRetryMaxAttempts E \<and> list_all (retried E S) [0..<i])"

definition prelude ::
  "('e, 'lg, 'cx) env \<Rightarrow> ('lg, 'cx) TxOptions \<Rightarrow> nat \<Rightarrow> ('lg, 'cx) event list" where
  "prelude E options i =
     (if i > 0
      then [EvRetryInc,
            EvWarnRetry (tx_logger options) i (SerializationRetryStartInterval E * of_nat i),
            EvSleep (SerializationRetryStartInterval E * of_nat i)]
      else [])"

definition begin_event :: "('lg, 'cx) TxOptions \<Rightarrow> ('lg, 'cx) event" where
  "begin_event options = EvBeginTxx (tx_ctx options) (isolationLevel options) (readOnly options)"

definition attempt_events ::
  "('e, 'lg, 'cx) env \<Rightarrow> ('r, 'e) script \<Rightarrow> ('lg, 'cx) TxOptions \<Rightarrow> nat
     \<Rightarrow> ('lg, 'cx) event list" where
  "attempt_events E S options i =
     prelude E options i @ begin_event options #
       (if BeginTxx S i \<noteq> None then []
        else if snd (fn S i) \<noteq> None then [EvFn, EvRollback] else [EvFn, EvCommit])"

definition attempt_result :: "('r, 'e) script \<Rightarrow> nat \<Rightarrow> 'r option \<times> 'e option" where
  "attempt_result S i =
     (case BeginTxx S i of
        Some e \<Rightarrow> (None, Some e)
      | None \<Rightarrow>
         (case snd (fn S i) of
            Some e \<Rightarrow> (case Rollback S i of Some re \<Rightarrow> (None, Some re) | None \<Rightarrow> (None, Some e))
          | None \<Rightarrow> (case Commit S i of Some e \<Rightarrow> (None, Some e) | None \<Rightarrow> (fst (fn S i), None))))"

text \<open>The calls on the pool, the transaction and \<^verbatim>\<open>fn\<close> that a trace holds, in order.\<close>

datatype call = BeginCall | FnCall | RollbackCall | CommitCall

fun calls :: "('lg, 'cx) event list \<Rightarrow> call list" where
  "calls [] = []"
| "calls (EvBeginTxx c l r # t) = BeginCall # calls t"
| "calls (EvFn # t) = FnCall # calls t"
| "calls (EvRollback # t) = RollbackCall # calls t"
| "calls (EvCommit # t) = CommitCall # calls t"
| "calls (e # t) = calls t"

subsection \<open>Reading a trace by attempts\<close>

text \<open>
  For every begin of a trace, in order, the sleeps between the previous begin (or the
  start) and it.
\<close>

fun sleeps_before :: "('lg, 'cx) event list \<Rightarrow> duration list \<Rightarrow> duration list list" where
  "sleeps_before [] acc = []"
| "sleeps_before (EvSleep d # t) acc = sleeps_before t (acc @ [d])"
| "sleeps_before (EvBeginTxx c l r # t) acc = acc # sleeps_before t []"
| "sleeps_before (e # t) acc = sleeps_before t acc"

text \<open>
  The calls of a trace by attempt: a group opens at each begin and runs up to the next.
  \<open>split_calls\<close> returns the calls in front of the first begin and the groups.
\<close>

fun split_calls :: "call list \<Rightarrow> call list \<times> call list list" where
  "split_calls [] = ([], [])"
| "split_calls (c # cs) =
     (let (pending, groups) = split_calls cs
      in if c = BeginCall then ([], (c # pending) # groups) else (c # pending, groups))"

definition attempts_of :: "call list \<Rightarrow> call list list" where
  "attempts_of cs = snd (split_calls cs)"

text \<open>The calls of iteration \<open>i\<close>, from what begin and \<^verbatim>\<open>fn\<close> answer in it.\<close>

definition attempt_calls :: "('r, 'e) script \<Rightarrow> nat \<Rightarrow> call list" where
  "attempt_calls S i =
     BeginCall # (if BeginTxx S i \<noteq> None then []
                  else if snd (fn S i) \<noteq> None then [FnCall, RollbackCall]
                  else [FnCall, CommitCall])"

text \<open>A group with one begin and one termination, by commit or by rollback.\<close>

definition terminated_once :: "call list \<Rightarrow> bool" where
  "terminated_once g =
     (count_list g BeginCall = 1 \<and> count_list g CommitCall + count_list g RollbackCall = 1)"

text \<open>The number of attempts of a call is the number of its begins.\<close>

definition begins :: "('r, 'e, 'lg, 'cx) outcome \<Rightarrow> nat" where
  "begins R = count_list (calls (trace R)) BeginCall"

text \<open>
  The two outcomes. Success with commit: a nil error, the commit of the last attempt was
  the last call and went through, and the result is what \<^verbatim>\<open>fn\<close> returned in that
  attempt. Terminal error: a non-nil error beside a nil result.
\<close>

definition success_with_commit :: "('r, 'e) script \<Rightarrow> ('r, 'e, 'lg, 'cx) outcome \<Rightarrow> bool" where
  "success_with_commit S R =
     (err R = None \<and> calls (trace R) \<noteq> [] \<and> last (calls (trace R)) = CommitCall
      \<and> Commit S (begins R - 1) = None \<and> ret R = fst (fn S (begins R - 1)))"

definition terminal_error :: "('r, 'e, 'lg, 'cx) outcome \<Rightarrow> bool" where
  "terminal_error R = (err R \<noteq> None \<and> ret R = None)"

subsection \<open>What a facade points to\<close>

text \<open>
  The objects a facade reaches through its two pointers: the connection pool, on which
  \<^verbatim>\<open>Close\<close>, \<^verbatim>\<open>Stats\<close>, the queries and \<^verbatim>\<open>BeginTxx\<close> act, and its \<^verbatim>\<open>QueryOptions\<close>, if any.
\<close>

datatype ref = PoolRef nat | OptsRef nat

definition refs :: "('lg, 'cx) heap \<Rightarrow> nat \<Rightarrow> ref set" where
  "refs h d =
     insert (PoolRef (db (facade_at h d)))
       (case queryOptions (facade_at h d) of Some q \<Rightarrow> {OptsRef q} | None \<Rightarrow> {})"

text \<open>
  A facade address in use whose \<^verbatim>\<open>queryOptions\<close> pointer, if not nil, is in use as well.
  Calls through a nil facade pointer are not modelled.
\<close>

definition allocated :: "('lg, 'cx) heap \<Rightarrow> nat \<Rightarrow> bool" where
  "allocated h d =
     (d < facade_next h \<and>
      (case queryOptions (facade_at h d) of Some q \<Rightarrow> q < opts_next h | None \<Rightarrow> True))"

subsection \<open>A sample installation\<close>

text \<open>
  Errors of the sample: the sentinel, driver errors carrying an SQL state, and anything
  else. Three attempts, ten milliseconds (in nanoseconds) as interval.

  Modelled from the spec: \<^verbatim>\<open>IsSerializationError\<close> is not among the sources. The
  classifier of the sample recognises the driver errors with the SQL states of a
  serialization failure (40001) and of a detected deadlock (40P01) and nothing else; the
  sentinel is distinct from any driver error.
\<close>

datatype sample_error = SentinelError | PgError string | PlainError string

definition sample_env :: "(sample_error, string, string) env" where
  "sample_env =
     \<lparr>SerializationRetryMaxAttempts = 3,
      SerializationRetryStartInterval = 10000000,
      IsSerializationError = (\<lambda>e. e = PgError ''40001'' \<or> e = PgError ''40P01''),
      ErrSerialization = SentinelError,
      DefaultTxOptions =
        \<lparr>tx_logger = ''default'', tx_ctx = ''background'', isolationLevel = 6, readOnly = False\<rparr>,
      logging_Default = ''default'',
      logging_Dummy = ''dummy'',
      logger_WithContext = (\<lambda>l c. l @ ''/'' @ c),
      context_Background = ''background''\<rparr>"

definition sample_heap :: "(string, string) heap" where
  "sample_heap =
     \<lparr>facade_at = (\<lambda>a. \<lparr>db = 0, queryOptions = None\<rparr>),
      opts_at = (\<lambda>a. \<lparr>logger = ''default'', ctx = ''background''\<rparr>),
      facade_next = 1,
      opts_next = 0\<rparr>"

text \<open>A function that always meets a serialization failure; everything else works.\<close>

definition always_conflict :: "(string, sample_error) script" where
  "always_conflict =
     \<lparr>BeginTxx = (\<lambda>i. None),
      fn = (\<lambda>i. (None, Some (PgError ''40001''))),
      Rollback = (\<lambda>i. None),
      Commit = (\<lambda>i. None)\<rparr>"

text \<open>Two conflicts, then success with the result \<open>ok\<close>.\<close>

definition third_time_lucky :: "(string, sample_error) script" where
  "third_time_lucky =
     \<lparr>BeginTxx = (\<lambda>i. None),
      fn = (\<lambda>i. if i < 2 then (None, Some (PgError ''40001'')) else (Some ''ok'', None)),
      Rollback = (\<lambda>i. None),
      Commit = (\<lambda>i. None)\<rparr>"

text \<open>
  A function that leaves a value behind and conflicts every time; the rollback of the second
  iteration fails.
\<close>

definition rollback_breaks :: "(string, sample_error) script" where
  "rollback_breaks =
     \<lparr>BeginTxx = (\<lambda>i. None),
      fn = (\<lambda>i. (Some ''partial'', Some (PgError ''40001''))),
      Rollback = (\<lambda>i. if i = 1 then Some (PlainError ''connection lost'') else None),
      Commit = (\<lambda>i. None)\<rparr>"

text \<open>Further sample calls: one failure each, of a kind that is not a conflict.\<close>

definition begin_fails :: "(string, sample_error) script" where
  "begin_fails =
     \<lparr>BeginTxx = (\<lambda>i. Some (PlainError ''pool closed'')),
      fn = (\<lambda>i. (Some ''ok'', None)),
      Rollback = (\<lambda>i. None),
      Commit = (\<lambda>i. None)\<rparr>"

definition plain_failure :: "(string, sample_error) script" where
  "plain_failure =
     \<lparr>BeginTxx = (\<lambda>i. None),
      fn = (\<lambda>i. (None, Some (PlainError ''constraint''))),
      Rollback = (\<lambda>i. None),
      Commit = (\<lambda>i. None)\<rparr>"

definition commit_fails :: "(string, sample_error) script" where
  "commit_fails =
     \<lparr>BeginTxx = (\<lambda>i. None),
      fn = (\<lambda>i. (Some ''ok'', None)),
      Rollback = (\<lambda>i. None),
      Commit = (\<lambda>i. Some (PlainError ''disk full''))\<rparr>"

text \<open>The function fails with one error and the rollback with another.\<close>

definition plain_failure_rollback_fails :: "(string, sample_error) script" where
  "plain_failure_rollback_fails =
     \<lparr>BeginTxx = (\<lambda>i. None),
      fn = (\<lambda>i. (None, Some (PlainError ''constraint''))),
      Rollback = (\<lambda>i. Some (PlainError ''connection lost'')),
      Commit = (\<lambda>i. None)\<rparr>"

text \<open>
  The function hands on the sentinel, as it does when a call of \<^verbatim>\<open>Transact\<close> that it made
  itself has given up.
\<close>

definition inner_gave_up :: "(string, sample_error) script" where
  "inner_gave_up =
     \<lparr>BeginTxx = (\<lambda>i. None),
      fn = (\<lambda>i. (None, Some SentinelError)),
      Rollback = (\<lambda>i. None),
      Commit = (\<lambda>i. None)\<rparr>"

text \<open>The sample store after a first \<^verbatim>\<open>WithContext\<close>: facade 1 carries the context \<open>request\<close>.\<close>

definition request_heap :: "(string, string) heap" where
  "request_heap = fst (WithContext sample_env sample_heap 0 ''request'')"

text \<open>Sample runs: a query that is answered, and one that fails with a plain error.\<close>

definition working_run :: "'a \<Rightarrow> ('a, sample_error) txrun" where
  "working_run a =
     \<lparr>run_begin = (\<lambda>i. None), run_query = (\<lambda>i. Inr a),
      run_rollback = (\<lambda>i. None), run_commit = (\<lambda>i. None)\<rparr>"

definition failing_run :: "sample_error \<Rightarrow> ('a, sample_error) txrun" where
  "failing_run e =
     \<lparr>run_begin = (\<lambda>i. None), run_query = (\<lambda>i. Inl e),
      run_rollback = (\<lambda>i. None), run_commit = (\<lambda>i. None)\<rparr>"

text \<open>
  A server without the function \<^verbatim>\<open>aurora_version\<close>, and the same server refusing the
  read of \<^verbatim>\<open>pg_settings\<close>.
\<close>

definition plain_postgres :: "sample_error server" where
  "plain_postgres =
     \<lparr>version_run = working_run ''PostgreSQL 11.5'',
      aurora_run = failing_run (PgError ''42883''),
      settings_run = working_run
        [\<lparr>Name = ''data_directory'', Setting = ''/rdsdata/db''\<rparr>,
         \<lparr>Name = ''TimeZone'', Setting = ''UTC''\<rparr>]\<rparr>"

definition settings_denied :: "sample_error server" where
  "settings_denied =
     \<lparr>version_run = working_run ''PostgreSQL 11.5'',
      aurora_run = failing_run (PgError ''42883''),
      settings_run = failing_run (PgError ''42501'')\<rparr>"

section \<open>Properties of Transact\<close>

declare Transact_loop.simps [simp del]

subsection \<open>One iteration\<close>

lemma fst_Transact_attempt:
  "fst (Transact_attempt E S options i) = attempt_events E S options i"
  by (simp add: Transact_attempt_def attempt_events_def prelude_def begin_event_def Let_def
           split: option.splits prod.splits)

lemma snd_Transact_attempt:
  "snd (Transact_attempt E S options i) =
     (if retried E S i then Continue
      else Return (fst (attempt_result S i)) (snd (attempt_result S i)))"
proof (cases "fn S i")
  case (Pair r e)
  then show ?thesis
    by (cases "BeginTxx S i"; cases e; cases "Rollback S i"; cases "Commit S i")
       (simp_all add: Transact_attempt_def retried_def attempt_result_def Let_def)
qed

lemma Transact_attempt_eq:
  "Transact_attempt E S options i =
     (attempt_events E S options i,
      if retried E S i then Continue
      else Return (fst (attempt_result S i)) (snd (attempt_result S i)))"
  by (simp add: prod_eq_iff fst_Transact_attempt snd_Transact_attempt)

lemma reached_iff:
  "reached E S i \<longleftrightarrow> i < SerializationRetryMaxAttempts E \<and> (\<forall>j<i. retried E S j)"
  by (auto simp: reached_def list_all_iff)

subsection \<open>The loop\<close>

lemma Transact_loop_retried:
  assumes "i < SerializationRetryMaxAttempts E" "retried E S i"
  shows "Transact_loop E S options i log =
         Transact_loop E S options (Suc i) (log @ attempt_events E S options i)"
  using assms by (subst Transact_loop.simps) (simp add: Transact_attempt_eq)

lemma Transact_loop_stops:
  assumes "i < SerializationRetryMaxAttempts E" "\<not> retried E S i"
  shows "Transact_loop E S options i log =
         \<lparr>ret = fst (attempt_result S i), err = snd (attempt_result S i),
          trace = log @ attempt_events E S options i\<rparr>"
  using assms by (subst Transact_loop.simps) (simp add: Transact_attempt_eq)

lemma Transact_loop_exhausted:
  "Transact_loop E S options (SerializationRetryMaxAttempts E) log =
     \<lparr>ret = None, err = Some (ErrSerialization E),
      trace = log @ [EvWarnFinal (tx_logger options) (SerializationRetryMaxAttempts E)]\<rparr>"
  by (subst Transact_loop.simps) simp

lemma Transact_loop_skip:
  assumes "\<forall>j<n. retried E S j" "n \<le> SerializationRetryMaxAttempts E"
  shows "Transact_loop E S options 0 [] =
         Transact_loop E S options n (concat (map (attempt_events E S options) [0..<n]))"
  using assms
proof (induction n)
  case 0
  show ?case by simp
next
  case (Suc n)
  have "Transact_loop E S options 0 [] =
        Transact_loop E S options n (concat (map (attempt_events E S options) [0..<n]))"
    using Suc by simp
  also have "\<dots> = Transact_loop E S options (Suc n)
        (concat (map (attempt_events E S options) [0..<n]) @ attempt_events E S options n)"
    using Suc.prems by (intro Transact_loop_retried) auto
  finally show ?case by simp
qed

text \<open>A call in which every iteration is retried, and one that stops in iteration \<open>n\<close>.\<close>

lemma Transact_exhausted:
  assumes "\<forall>j<SerializationRetryMaxAttempts E. retried E S j"
  shows "Transact E h d S opts =
         \<lparr>ret = None, err = Some (ErrSerialization E),
          trace = concat (map (attempt_events E S (applied_options E h d opts))
                              [0..<SerializationRetryMaxAttempts E])
                  @ [EvWarnFinal (tx_logger (applied_options E h d opts))
                                 (SerializationRetryMaxAttempts E)]\<rparr>"
  using Transact_loop_skip [OF assms order_refl, of "applied_options E h d opts"]
  by (simp add: Transact_def applied_options_def Transact_loop_exhausted)

lemma Transact_stopped:
  assumes "n < SerializationRetryMaxAttempts E" "\<forall>j<n. retried E S j" "\<not> retried E S n"
  shows "Transact E h d S opts =
         \<lparr>ret = fst (attempt_result S n), err = snd (attempt_result S n),
          trace = concat (map (attempt_events E S (applied_options E h d opts)) [0..<Suc n])\<rparr>"
proof -
  have "n \<le> SerializationRetryMaxAttempts E" using assms(1) by simp
  from Transact_loop_skip [OF assms(2) this, of "applied_options E h d opts"]
  show ?thesis
    using assms(1,3)
    by (simp add: Transact_def applied_options_def Transact_loop_stops)
qed

lemma first_stop:
  assumes "\<not> (\<forall>j<N. retried E S j)"
  obtains n where "n < N" "\<forall>j<n. retried E S j" "\<not> retried E S n"
proof -
  from assms obtain k where k: "k < N" "\<not> retried E S k" by blast
  define n where "n = (LEAST k. \<not> retried E S k)"
  have a: "\<not> retried E S n" unfolding n_def using k(2) by (rule LeastI)
  have b: "n \<le> k" unfolding n_def using k(2) by (rule Least_le)
  have c: "\<forall>j<n. retried E S j" unfolding n_def using not_less_Least by blast
  show thesis using that [of n] a b c k(1) by simp
qed

text \<open>Every call either uses up the bound or stops in its first iteration not retried.\<close>

lemma Transact_cases [case_names exhausted stopped]:
  obtains
    "\<forall>j<SerializationRetryMaxAttempts E. retried E S j"
    "Transact E h d S opts =
       \<lparr>ret = None, err = Some (ErrSerialization E),
        trace = concat (map (attempt_events E S (applied_options E h d opts))
                            [0..<SerializationRetryMaxAttempts E])
                @ [EvWarnFinal (tx_logger (applied_options E h d opts))
                               (SerializationRetryMaxAttempts E)]\<rparr>"
  | n where
    "n < SerializationRetryMaxAttempts E" "\<forall>j<n. retried E S j" "\<not> retried E S n"
    "Transact E h d S opts =
       \<lparr>ret = fst (attempt_result S n), err = snd (attempt_result S n),
        trace = concat (map (attempt_events E S (applied_options E h d opts)) [0..<Suc n])\<rparr>"
proof (cases "\<forall>j<SerializationRetryMaxAttempts E. retried E S j")
  case True
  then show ?thesis using that(1) Transact_exhausted by blast
next
  case False
  then obtain n where "n < SerializationRetryMaxAttempts E" "\<forall>j<n. retried E S j"
      "\<not> retried E S n"
    by (rule first_stop)
  then show ?thesis using that(2) Transact_stopped by blast
qed

subsection \<open>The calls in a trace\<close>

lemma calls_append: "calls (xs @ ys) = calls xs @ calls ys"
  by (induction xs rule: calls.induct) simp_all

lemma calls_concat: "calls (concat xss) = concat (map calls xss)"
  by (induction xss) (simp_all add: calls_append)

lemma calls_prelude: "calls (prelude E options i) = []"
  by (simp add: prelude_def)

lemma calls_attempt_events:
  "calls (attempt_events E S options i) =
     BeginCall # (if BeginTxx S i \<noteq> None then []
                  else if snd (fn S i) \<noteq> None then [FnCall, RollbackCall]
                  else [FnCall, CommitCall])"
  by (simp add: attempt_events_def calls_append calls_prelude begin_event_def)

lemma count_list_concat_replicate:
  "count_list (concat (replicate n xs)) a = n * count_list xs a"
  by (induction n) simp_all

lemma count_begin_attempt_events:
  "count_list (calls (attempt_events E S options i)) BeginCall = 1"
  by (simp add: calls_attempt_events)

lemma count_begin_attempts:
  "count_list (calls (concat (map (attempt_events E S options) [0..<n]))) BeginCall = n"
  by (induction n) (simp_all add: calls_append count_begin_attempt_events)

lemma calls_conflict_attempts:
  assumes "\<forall>i<n. BeginTxx S i = None \<and> snd (fn S i) \<noteq> None"
  shows "calls (concat (map (attempt_events E S options) [0..<n])) =
         concat (replicate n [BeginCall, FnCall, RollbackCall])"
  using assms
proof (induction n)
  case 0
  show ?case by simp
next
  case (Suc n)
  have "replicate (Suc n) [BeginCall, FnCall, RollbackCall]
        = replicate n [BeginCall, FnCall, RollbackCall] @ [[BeginCall, FnCall, RollbackCall]]"
    by (simp add: replicate_append_same)
  then have "concat (replicate (Suc n) [BeginCall, FnCall, RollbackCall])
        = concat (replicate n [BeginCall, FnCall, RollbackCall]) @ [BeginCall, FnCall, RollbackCall]"
    by (simp only: concat_append concat.simps append_Nil2)
  with Suc show ?case
    by (simp add: calls_append calls_attempt_events del: replicate_Suc)
qed

subsection \<open>A function that always conflicts\<close>

text \<open>
  Claim C1. Let \<open>N\<close> be \<^verbatim>\<open>SerializationRetryMaxAttempts\<close>. If in each of the \<open>N\<close>
  iterations the transaction begins, \<^verbatim>\<open>fn\<close> fails with an error classified as a
  serialization conflict and the rollback succeeds, then \<^verbatim>\<open>Transact\<close> returns a nil
  result together with \<^verbatim>\<open>ErrSerialization\<close>, and the calls it made are exactly \<open>N\<close>
  cycles of begin, \<^verbatim>\<open>fn\<close>, rollback: \<open>N\<close> begins, \<open>N\<close> rollbacks and no commit. This
  holds for every \<open>N\<close>, in particular for every \<open>N \<ge> 1\<close>.
\<close>

theorem Transact_always_conflict:
  assumes "\<forall>i<SerializationRetryMaxAttempts E. BeginTxx S i = None"
    and "\<forall>i<SerializationRetryMaxAttempts E. \<exists>e. snd (fn S i) = Some e \<and> IsSerializationError E e"
    and "\<forall>i<SerializationRetryMaxAttempts E. Rollback S i = None"
  shows "ret (Transact E h d S opts) = None
       \<and> err (Transact E h d S opts) = Some (ErrSerialization E)
       \<and> calls (trace (Transact E h d S opts)) =
           concat (replicate (SerializationRetryMaxAttempts E) [BeginCall, FnCall, RollbackCall])
       \<and> count_list (calls (trace (Transact E h d S opts))) BeginCall = SerializationRetryMaxAttempts E
       \<and> count_list (calls (trace (Transact E h d S opts))) RollbackCall = SerializationRetryMaxAttempts E
       \<and> count_list (calls (trace (Transact E h d S opts))) CommitCall = 0"
proof -
  let ?N = "SerializationRetryMaxAttempts E"
  have r: "\<forall>j<?N. retried E S j"
    using assms by (auto simp: retried_def)
  have c: "\<And>i. i < ?N \<Longrightarrow>
      calls (attempt_events E S (applied_options E h d opts) i) = [BeginCall, FnCall, RollbackCall]"
    using assms by (auto simp: calls_attempt_events)
  have "map (\<lambda>i. calls (attempt_events E S (applied_options E h d opts) i)) [0..<?N]
        = map (\<lambda>i. [BeginCall, FnCall, RollbackCall]) [0..<?N]"
    using c by simp
  then have t: "calls (trace (Transact E h d S opts)) =
      concat (replicate ?N [BeginCall, FnCall, RollbackCall])"
    by (simp add: Transact_exhausted [OF r] calls_append calls_concat comp_def map_replicate_const)
  show ?thesis
    by (simp add: t count_list_concat_replicate) (simp add: Transact_exhausted [OF r])
qed

text \<open>With three attempts: three cycles, then the sentinel.\<close>

theorem Transact_always_conflict_witness:
  "ret (Transact sample_env sample_heap 0 always_conflict []) = None
   \<and> err (Transact sample_env sample_heap 0 always_conflict []) = Some SentinelError
   \<and> calls (trace (Transact sample_env sample_heap 0 always_conflict [])) =
       [BeginCall, FnCall, RollbackCall, BeginCall, FnCall, RollbackCall,
        BeginCall, FnCall, RollbackCall]"
  using Transact_always_conflict [of sample_env always_conflict sample_heap 0 "[]"]
  by (simp add: sample_env_def always_conflict_def numeral_3_eq_3)

subsection \<open>Success after conflicts\<close>

text \<open>
  Claim C2. Let \<open>1 \<le> k \<le> N\<close>. If the transaction begins in each of the first \<open>k\<close>
  iterations, \<^verbatim>\<open>fn\<close> fails with a classified serialization conflict in the first \<open>k - 1\<close>
  of them, each followed by a successful rollback, and in iteration \<open>k\<close> \<^verbatim>\<open>fn\<close> returns
  \<open>v\<close> with a nil error and the commit succeeds, then \<^verbatim>\<open>Transact\<close> returns \<open>v\<close> with a
  nil error, having committed exactly once and rolled back exactly \<open>k - 1\<close> times (and
  begun \<open>k\<close> times). Iteration \<open>k\<close> of the claim has the index \<open>k - 1\<close>.
\<close>

theorem Transact_succeeds_after_conflicts:
  assumes "1 \<le> k" "k \<le> SerializationRetryMaxAttempts E"
    and "\<forall>i<k. BeginTxx S i = None"
    and "\<forall>i<k - 1. \<exists>e. snd (fn S i) = Some e \<and> IsSerializationError E e"
    and "\<forall>i<k - 1. Rollback S i = None"
    and "fn S (k - 1) = (v, None)"
    and "Commit S (k - 1) = None"
  shows "ret (Transact E h d S opts) = v
       \<and> err (Transact E h d S opts) = None
       \<and> calls (trace (Transact E h d S opts)) =
           concat (replicate (k - 1) [BeginCall, FnCall, RollbackCall])
           @ [BeginCall, FnCall, CommitCall]
       \<and> count_list (calls (trace (Transact E h d S opts))) CommitCall = 1
       \<and> count_list (calls (trace (Transact E h d S opts))) RollbackCall = k - 1
       \<and> count_list (calls (trace (Transact E h d S opts))) BeginCall = k"
proof -
  let ?n = "k - 1"
  have n: "?n < SerializationRetryMaxAttempts E" "Suc ?n = k" using assms(1,2) by auto
  have b: "BeginTxx S ?n = None" using assms(1,3) by simp
  have r: "\<forall>j<?n. retried E S j"
    using assms(3,4,5) by (auto simp: retried_def)
  have s: "\<not> retried E S ?n"
    using assms(6,7) by (simp add: retried_def)
  have res: "attempt_result S ?n = (v, None)"
    using b assms(6,7) by (simp add: attempt_result_def)
  have "\<forall>i<?n. BeginTxx S i = None \<and> snd (fn S i) \<noteq> None"
    using assms(3,4) by auto
  then have t: "calls (trace (Transact E h d S opts)) =
      concat (replicate ?n [BeginCall, FnCall, RollbackCall]) @ [BeginCall, FnCall, CommitCall]"
    using b assms(6)
    by (simp add: Transact_stopped [OF n(1) r s] calls_append calls_conflict_attempts
          calls_attempt_events)
  have c: "count_list (calls (trace (Transact E h d S opts))) BeginCall = k"
    using n(2) by (simp add: t count_list_concat_replicate)
  show ?thesis
    using c res by (simp add: t count_list_concat_replicate) (simp add: Transact_stopped [OF n(1) r s])
qed

text \<open>Two conflicts and a success: two rollbacks, one commit, the result \<open>ok\<close>.\<close>

theorem Transact_succeeds_after_conflicts_witness:
  "ret (Transact sample_env sample_heap 0 third_time_lucky []) = Some ''ok''
   \<and> err (Transact sample_env sample_heap 0 third_time_lucky []) = None
   \<and> calls (trace (Transact sample_env sample_heap 0 third_time_lucky [])) =
       [BeginCall, FnCall, RollbackCall, BeginCall, FnCall, RollbackCall,
        BeginCall, FnCall, CommitCall]
   \<and> count_list (calls (trace (Transact sample_env sample_heap 0 third_time_lucky []))) CommitCall = 1
   \<and> count_list (calls (trace (Transact sample_env sample_heap 0 third_time_lucky []))) RollbackCall = 2"
  using Transact_succeeds_after_conflicts
          [of 3 sample_env third_time_lucky "Some ''ok''" sample_heap 0 "[]"]
  by (simp add: sample_env_def third_time_lucky_def numeral_2_eq_2)

subsection \<open>A failing rollback\<close>

text \<open>
  Claim C3. If iteration \<open>i\<close> is run, \<^verbatim>\<open>fn\<close> fails in it with any error \<open>e\<close>,
  classified as a conflict or not, and the rollback then fails with \<open>rollbackErr\<close>, then
  \<^verbatim>\<open>Transact\<close> returns a nil result with \<open>rollbackErr\<close>; the failed rollback is the last
  thing it does, and no iteration after \<open>i\<close> begins a transaction, whatever is left of the
  bound.
\<close>

theorem Transact_rollback_failure:
  assumes "reached E S i"
    and "BeginTxx S i = None"
    and "snd (fn S i) = Some e"
    and "Rollback S i = Some rollbackErr"
  shows "ret (Transact E h d S opts) = None
       \<and> err (Transact E h d S opts) = Some rollbackErr
       \<and> last (trace (Transact E h d S opts)) = EvRollback
       \<and> count_list (calls (trace (Transact E h d S opts))) BeginCall = Suc i"
proof -
  have n: "i < SerializationRetryMaxAttempts E" and r: "\<forall>j<i. retried E S j"
    using assms(1) by (simp_all add: reached_iff)
  have s: "\<not> retried E S i"
    using assms(3,4) by (simp add: retried_def)
  have res: "attempt_result S i = (None, Some rollbackErr)"
    using assms(2,3,4) by (simp add: attempt_result_def)
  have l: "last (attempt_events E S (applied_options E h d opts) i) = EvRollback"
    using assms(2,3) by (simp add: attempt_events_def)
  have ne: "attempt_events E S (applied_options E h d opts) i \<noteq> []"
    by (simp add: attempt_events_def)
  have c: "count_list (calls (trace (Transact E h d S opts))) BeginCall = Suc i"
    unfolding Transact_stopped [OF n r s] by (simp only: outcome.simps count_begin_attempts)
  show ?thesis
    using c l ne by (simp add: Transact_stopped [OF n r s] res)
qed

text \<open>
  The rollback of the second of three iterations fails after a classified conflict: the
  call ends there with the rollback's error.
\<close>

theorem Transact_rollback_failure_witness:
  "reached sample_env rollback_breaks 1
   \<and> IsSerializationError sample_env (PgError ''40001'')
   \<and> ret (Transact sample_env sample_heap 0 rollback_breaks []) = None
   \<and> err (Transact sample_env sample_heap 0 rollback_breaks []) = Some (PlainError ''connection lost'')
   \<and> last (trace (Transact sample_env sample_heap 0 rollback_breaks [])) = EvRollback
   \<and> count_list (calls (trace (Transact sample_env sample_heap 0 rollback_breaks []))) BeginCall = 2"
proof -
  have r: "reached sample_env rollback_breaks 1"
    by (simp add: reached_def retried_def sample_env_def rollback_breaks_def)
  show ?thesis
    using r Transact_rollback_failure
            [OF r, of "PgError ''40001''" "PlainError ''connection lost''" sample_heap 0 "[]"]
    by (simp add: sample_env_def rollback_breaks_def)
qed

subsection \<open>No result beside an error\<close>

lemma attempt_result_error_nil:
  "snd (attempt_result S i) \<noteq> None \<Longrightarrow> fst (attempt_result S i) = None"
  by (simp add: attempt_result_def split: option.splits)

text \<open>
  Claim C10. Whenever \<^verbatim>\<open>Transact\<close> returns a non-nil error, be it from a failed begin, a
  failed rollback, an error of \<^verbatim>\<open>fn\<close>, a failed commit or the exhausted bound, the result
  beside it is nil, also when \<^verbatim>\<open>fn\<close> had returned a value together with its error.
\<close>

theorem Transact_error_nil_result:
  "err (Transact E h d S opts) \<noteq> None \<longrightarrow> ret (Transact E h d S opts) = None"
proof (cases rule: Transact_cases [of E S h d opts])
  case exhausted
  then show ?thesis by simp
next
  case (stopped n)
  then show ?thesis by (simp add: attempt_result_error_nil)
qed

lemma rollback_breaks_err:
  "err (Transact sample_env sample_heap 0 rollback_breaks []) = Some (PlainError ''connection lost'')"
proof -
  have r: "reached sample_env rollback_breaks 1"
    by (simp add: reached_def retried_def sample_env_def rollback_breaks_def)
  have n: "(1::nat) < SerializationRetryMaxAttempts sample_env" and p: "\<forall>j<1. retried sample_env rollback_breaks j"
    using r by (simp_all add: reached_iff)
  have s: "\<not> retried sample_env rollback_breaks 1"
    by (simp add: retried_def rollback_breaks_def)
  show ?thesis
    unfolding Transact_stopped [OF n p s]
    by (simp add: attempt_result_def rollback_breaks_def)
qed

text \<open>The function returned the value \<open>partial\<close> with its error; the caller gets nil.\<close>

theorem Transact_error_nil_result_witness:
  "fn rollback_breaks 1 = (Some ''partial'', Some (PgError ''40001''))
   \<and> err (Transact sample_env sample_heap 0 rollback_breaks []) \<noteq> None
   \<and> ret (Transact sample_env sample_heap 0 rollback_breaks []) = None"
  using Transact_error_nil_result [of sample_env sample_heap 0 rollback_breaks "[]"]
     rollback_breaks_err
  by (simp add: rollback_breaks_def)

subsection \<open>Which errors are passed on\<close>

lemma reached_0: "reached E S 0 \<longleftrightarrow> 0 < SerializationRetryMaxAttempts E"
  by (simp add: reached_def)

lemma Transact_reached_stopped:
  assumes "reached E S i" "\<not> retried E S i"
  shows "Transact E h d S opts =
         \<lparr>ret = fst (attempt_result S i), err = snd (attempt_result S i),
          trace = concat (map (attempt_events E S (applied_options E h d opts)) [0..<Suc i])\<rparr>"
  using assms by (intro Transact_stopped) (simp_all add: reached_iff)

lemma count_begin_Transact_le:
  "Suc j < count_list (calls (trace (Transact E h d S opts))) BeginCall \<Longrightarrow> retried E S j"
proof (cases rule: Transact_cases [of E S h d opts])
  case exhausted
  assume "Suc j < count_list (calls (trace (Transact E h d S opts))) BeginCall"
  then have "Suc j < SerializationRetryMaxAttempts E"
    unfolding exhausted(2) by (simp add: calls_append count_begin_attempts del: upt_Suc)
  then show ?thesis using exhausted(1) by simp
next
  case (stopped n)
  assume "Suc j < count_list (calls (trace (Transact E h d S opts))) BeginCall"
  then have "Suc j < Suc n"
    unfolding stopped(4) by (simp only: outcome.simps count_begin_attempts)
  then show ?thesis using stopped(2) by simp
qed

text \<open>
  Claim C4, as amended. Let iteration \<open>i\<close> be run. A failure to begin, an error of \<^verbatim>\<open>fn\<close>
  that is not classified as a serialization conflict and is followed by a successful
  rollback, and an error of the commit that is not classified as a conflict are each
  returned as the very same error value, and no later iteration begins a transaction.
  A further iteration is begun only after one that ended in a classified conflict. (When
  the rollback after a failed \<^verbatim>\<open>fn\<close> fails as well, the rollback's error is what is
  returned, as the sample call after the theorem shows.)
\<close>

theorem Transact_propagates:
  assumes "reached E S i"
  shows "(BeginTxx S i = Some e \<longrightarrow>
            err (Transact E h d S opts) = Some e
          \<and> count_list (calls (trace (Transact E h d S opts))) BeginCall = Suc i)
       \<and> (BeginTxx S i = None \<and> snd (fn S i) = Some e \<and> \<not> IsSerializationError E e
            \<and> Rollback S i = None \<longrightarrow>
            err (Transact E h d S opts) = Some e
          \<and> count_list (calls (trace (Transact E h d S opts))) BeginCall = Suc i)
       \<and> (BeginTxx S i = None \<and> snd (fn S i) = None \<and> Commit S i = Some e
            \<and> \<not> IsSerializationError E e \<longrightarrow>
            err (Transact E h d S opts) = Some e
          \<and> count_list (calls (trace (Transact E h d S opts))) BeginCall = Suc i)
       \<and> (\<forall>j. Suc j < count_list (calls (trace (Transact E h d S opts))) BeginCall
            \<longrightarrow> retried E S j)"
proof -
  have stop: "err (Transact E h d S opts) = snd (attempt_result S i)
      \<and> count_list (calls (trace (Transact E h d S opts))) BeginCall = Suc i"
    if "\<not> retried E S i"
    unfolding Transact_reached_stopped [OF assms that]
    by (simp only: outcome.simps count_begin_attempts)
  have a: "BeginTxx S i = Some e \<longrightarrow>
            err (Transact E h d S opts) = Some e
          \<and> count_list (calls (trace (Transact E h d S opts))) BeginCall = Suc i"
  proof
    assume b: "BeginTxx S i = Some e"
    then have "\<not> retried E S i" by (simp add: retried_def)
    from stop [OF this] b show "err (Transact E h d S opts) = Some e
          \<and> count_list (calls (trace (Transact E h d S opts))) BeginCall = Suc i"
      by (simp add: attempt_result_def)
  qed
  have b: "BeginTxx S i = None \<and> snd (fn S i) = Some e \<and> \<not> IsSerializationError E e
            \<and> Rollback S i = None \<longrightarrow>
            err (Transact E h d S opts) = Some e
          \<and> count_list (calls (trace (Transact E h d S opts))) BeginCall = Suc i"
  proof
    assume h: "BeginTxx S i = None \<and> snd (fn S i) = Some e \<and> \<not> IsSerializationError E e
            \<and> Rollback S i = None"
    then have "\<not> retried E S i" by (simp add: retried_def)
    from stop [OF this] h show "err (Transact E h d S opts) = Some e
          \<and> count_list (calls (trace (Transact E h d S opts))) BeginCall = Suc i"
      by (simp add: attempt_result_def)
  qed
  have c: "BeginTxx S i = None \<and> snd (fn S i) = None \<and> Commit S i = Some e
            \<and> \<not> IsSerializationError E e \<longrightarrow>
            err (Transact E h d S opts) = Some e
          \<and> count_list (calls (trace (Transact E h d S opts))) BeginCall = Suc i"
  proof
    assume h: "BeginTxx S i = None \<and> snd (fn S i) = None \<and> Commit S i = Some e
            \<and> \<not> IsSerializationError E e"
    then have "\<not> retried E S i" by (simp add: retried_def)
    from stop [OF this] h show "err (Transact E h d S opts) = Some e
          \<and> count_list (calls (trace (Transact E h d S opts))) BeginCall = Suc i"
      by (simp add: attempt_result_def)
  qed
  have d: "\<forall>j. Suc j < count_list (calls (trace (Transact E h d S opts))) BeginCall
            \<longrightarrow> retried E S j"
    using count_begin_Transact_le by blast
  from a b c d show ?thesis by (intro conjI)
qed

lemma sample_reached_0: "reached sample_env S 0"
  by (simp add: reached_0 sample_env_def)

text \<open>A failed begin, a plain error of \<^verbatim>\<open>fn\<close> and a plain error of the commit.\<close>

theorem Transact_propagates_witness:
  "err (Transact sample_env sample_heap 0 begin_fails []) = Some (PlainError ''pool closed'')
   \<and> count_list (calls (trace (Transact sample_env sample_heap 0 begin_fails []))) BeginCall = 1
   \<and> err (Transact sample_env sample_heap 0 plain_failure []) = Some (PlainError ''constraint'')
   \<and> count_list (calls (trace (Transact sample_env sample_heap 0 plain_failure []))) BeginCall = 1
   \<and> err (Transact sample_env sample_heap 0 commit_fails []) = Some (PlainError ''disk full'')
   \<and> count_list (calls (trace (Transact sample_env sample_heap 0 commit_fails []))) BeginCall = 1"
proof -
  have n: "\<not> IsSerializationError sample_env (PlainError x)" for x
    by (simp add: sample_env_def)
  from Transact_propagates [OF sample_reached_0, of begin_fails "PlainError ''pool closed''" sample_heap 0 "[]"]
  have a: "err (Transact sample_env sample_heap 0 begin_fails []) = Some (PlainError ''pool closed'')
   \<and> count_list (calls (trace (Transact sample_env sample_heap 0 begin_fails []))) BeginCall = 1"
    by (simp add: begin_fails_def)
  from Transact_propagates [OF sample_reached_0, of plain_failure "PlainError ''constraint''" sample_heap 0 "[]"]
  have b: "err (Transact sample_env sample_heap 0 plain_failure []) = Some (PlainError ''constraint'')
   \<and> count_list (calls (trace (Transact sample_env sample_heap 0 plain_failure []))) BeginCall = 1"
    using n by (simp add: plain_failure_def)
  from Transact_propagates [OF sample_reached_0, of commit_fails "PlainError ''disk full''" sample_heap 0 "[]"]
  have c: "err (Transact sample_env sample_heap 0 commit_fails []) = Some (PlainError ''disk full'')
   \<and> count_list (calls (trace (Transact sample_env sample_heap 0 commit_fails []))) BeginCall = 1"
    using n by (simp add: commit_fails_def)
  from a b c show ?thesis by simp
qed

lemma sample_first_attempt:
  assumes "\<not> retried sample_env S 0"
  shows "Transact sample_env sample_heap 0 S [] =
         \<lparr>ret = fst (attempt_result S 0), err = snd (attempt_result S 0),
          trace = attempt_events sample_env S (applied_options sample_env sample_heap 0 []) 0\<rparr>"
  using Transact_reached_stopped [OF sample_reached_0 assms, of sample_heap 0 "[]"] by simp

text \<open>
  The claim as first stated asks that every error of \<^verbatim>\<open>fn\<close> that is not a conflict be
  returned unchanged. In the first iteration of the sample call below \<^verbatim>\<open>fn\<close> fails with
  an error that is not a conflict and the rollback fails too: the caller receives the
  rollback's error, not the error of \<^verbatim>\<open>fn\<close>.
\<close>

theorem Transact_fn_error_replaced:
  "reached sample_env plain_failure_rollback_fails 0
   \<and> BeginTxx plain_failure_rollback_fails 0 = None
   \<and> snd (fn plain_failure_rollback_fails 0) = Some (PlainError ''constraint'')
   \<and> \<not> IsSerializationError sample_env (PlainError ''constraint'')
   \<and> err (Transact sample_env sample_heap 0 plain_failure_rollback_fails [])
       = Some (PlainError ''connection lost'')
   \<and> err (Transact sample_env sample_heap 0 plain_failure_rollback_fails [])
       \<noteq> Some (PlainError ''constraint'')"
proof -
  have s: "\<not> retried sample_env plain_failure_rollback_fails 0"
    by (simp add: retried_def plain_failure_rollback_fails_def)
  have e: "err (Transact sample_env sample_heap 0 plain_failure_rollback_fails [])
       = Some (PlainError ''connection lost'')"
    unfolding sample_first_attempt [OF s]
    by (simp add: attempt_result_def plain_failure_rollback_fails_def)
  have n: "\<not> IsSerializationError sample_env (PlainError ''constraint'')"
    by (simp add: sample_env_def)
  show ?thesis
    using e n sample_reached_0 [of plain_failure_rollback_fails]
    by (simp add: plain_failure_rollback_fails_def)
qed

subsection \<open>Where the sentinel comes from\<close>

lemma snd_attempt_result_cases:
  "snd (attempt_result S i) = None \<or> snd (attempt_result S i) = BeginTxx S i
   \<or> snd (attempt_result S i) = snd (fn S i) \<or> snd (attempt_result S i) = Rollback S i
   \<or> snd (attempt_result S i) = Commit S i"
  by (simp add: attempt_result_def split: option.splits)

text \<open>
  Claim C5, as amended. Provided none of begin, \<^verbatim>\<open>fn\<close>, rollback and commit itself returns
  the value \<^verbatim>\<open>ErrSerialization\<close>, \<^verbatim>\<open>Transact\<close> returns \<^verbatim>\<open>ErrSerialization\<close> exactly when
  every one of the \<open>N\<close> iterations ended in a classified conflict, and it has then begun
  \<open>N\<close> transactions.
\<close>

theorem Transact_sentinel:
  assumes "\<forall>i<SerializationRetryMaxAttempts E.
             BeginTxx S i \<noteq> Some (ErrSerialization E) \<and> snd (fn S i) \<noteq> Some (ErrSerialization E)
           \<and> Rollback S i \<noteq> Some (ErrSerialization E) \<and> Commit S i \<noteq> Some (ErrSerialization E)"
  shows "(err (Transact E h d S opts) = Some (ErrSerialization E)
            \<longleftrightarrow> (\<forall>i<SerializationRetryMaxAttempts E. retried E S i))
       \<and> (err (Transact E h d S opts) = Some (ErrSerialization E)
            \<longrightarrow> count_list (calls (trace (Transact E h d S opts))) BeginCall
                 = SerializationRetryMaxAttempts E)"
proof (cases rule: Transact_cases [of E S h d opts])
  case exhausted
  have "count_list (calls (trace (Transact E h d S opts))) BeginCall
                 = SerializationRetryMaxAttempts E"
    unfolding exhausted(2) by (simp add: calls_append count_begin_attempts del: upt_Suc)
  then show ?thesis using exhausted by simp
next
  case (stopped n)
  have "snd (attempt_result S n) \<noteq> Some (ErrSerialization E)"
    using snd_attempt_result_cases [of S n] assms stopped(1) by auto
  then have "err (Transact E h d S opts) \<noteq> Some (ErrSerialization E)"
    by (simp add: stopped(4))
  then show ?thesis using stopped(1,3) by auto
qed

text \<open>Three conflicts out of three: the sentinel.\<close>

theorem Transact_sentinel_witness:
  "err (Transact sample_env sample_heap 0 always_conflict []) = Some (ErrSerialization sample_env)
   \<and> retried sample_env always_conflict 0 \<and> retried sample_env always_conflict 1
   \<and> retried sample_env always_conflict 2
   \<and> count_list (calls (trace (Transact sample_env sample_heap 0 always_conflict []))) BeginCall = 3"
proof -
  have r: "\<forall>i<SerializationRetryMaxAttempts sample_env. retried sample_env always_conflict i"
    by (simp add: retried_def always_conflict_def sample_env_def)
  have "SerializationRetryMaxAttempts sample_env = 3" by (simp add: sample_env_def)
  with r Transact_sentinel [of sample_env always_conflict sample_heap 0 "[]"]
  show ?thesis
    by (simp add: always_conflict_def sample_env_def)
qed

text \<open>
  Without the proviso the claim fails: errors that are not retried are passed on as they
  are, the sentinel among them. Here \<^verbatim>\<open>fn\<close> returns the sentinel, which the classifier
  does not take for a conflict; \<^verbatim>\<open>Transact\<close> returns it after one of three attempts.
\<close>

theorem Transact_sentinel_passed_on:
  "err (Transact sample_env sample_heap 0 inner_gave_up []) = Some (ErrSerialization sample_env)
   \<and> \<not> retried sample_env inner_gave_up 0
   \<and> count_list (calls (trace (Transact sample_env sample_heap 0 inner_gave_up []))) BeginCall = 1
   \<and> SerializationRetryMaxAttempts sample_env = 3"
proof -
  have s: "\<not> retried sample_env inner_gave_up 0"
    by (simp add: retried_def inner_gave_up_def sample_env_def)
  have e: "err (Transact sample_env sample_heap 0 inner_gave_up []) = Some (ErrSerialization sample_env)"
    unfolding sample_first_attempt [OF s]
    by (simp add: attempt_result_def inner_gave_up_def sample_env_def)
  have c: "count_list (calls (trace (Transact sample_env sample_heap 0 inner_gave_up []))) BeginCall = 1"
    unfolding sample_first_attempt [OF s]
    by (simp add: calls_attempt_events)
  show ?thesis using s e c by (simp add: sample_env_def)
qed

subsection \<open>The delay before an attempt\<close>

lemma sint_mult_of_nat:
  fixes u :: duration
  assumes "- (2 ^ 63) \<le> sint u * int i" "sint u * int i < 2 ^ 63"
  shows "sint (u * of_nat i) = sint u * int i"
proof -
  have "u * of_nat i = word_of_int (sint u * int i)"
    by simp
  then have "sint (u * of_nat i) = signed_take_bit 63 (sint u * int i)"
    by (simp only: sint_sbintrunc') simp
  also have "\<dots> = sint u * int i"
    using assms by (simp add: signed_take_bit_int_eq_self)
  finally show ?thesis .
qed

lemma sleeps_before_attempt:
  "sleeps_before (attempt_events E S options i @ rest) [] =
     (if i = 0 then [] else [SerializationRetryStartInterval E * of_nat i])
     # sleeps_before rest []"
  by (simp add: attempt_events_def prelude_def begin_event_def)

lemma sleeps_before_attempts:
  "sleeps_before (concat (map (attempt_events E S options) js) @ rest) [] =
     map (\<lambda>i. if i = 0 then [] else [SerializationRetryStartInterval E * of_nat i]) js
     @ sleeps_before rest []"
  by (induction js) (simp_all add: sleeps_before_attempt)

lemma begins_exhausted:
  assumes "\<forall>j<SerializationRetryMaxAttempts E. retried E S j"
  shows "begins (Transact E h d S opts) = SerializationRetryMaxAttempts E"
  unfolding begins_def Transact_exhausted [OF assms]
  by (simp add: calls_append count_begin_attempts del: upt_Suc)

lemma begins_stopped:
  assumes "n < SerializationRetryMaxAttempts E" "\<forall>j<n. retried E S j" "\<not> retried E S n"
  shows "begins (Transact E h d S opts) = Suc n"
  unfolding begins_def Transact_stopped [OF assms]
  by (simp only: outcome.simps count_begin_attempts)

text \<open>
  Claim C6. In every call of \<^verbatim>\<open>Transact\<close> the first attempt (index 0) begins without any
  sleep before it, and each attempt of index \<open>i \<ge> 1\<close> that the call makes begins after
  exactly one sleep, of the duration \<^verbatim>\<open>SerializationRetryStartInterval\<close> times \<open>i\<close>. The
  product is that of Go's 64-bit integers; whenever the product of the numbers fits 64
  bits, it is that product.
\<close>

theorem Transact_delays:
  "sleeps_before (trace (Transact E h d S opts)) [] =
     map (\<lambda>i. if i = 0 then [] else [SerializationRetryStartInterval E * of_nat i])
         [0..<begins (Transact E h d S opts)]
   \<and> (\<forall>i. - (2 ^ 63) \<le> sint (SerializationRetryStartInterval E) * int i
          \<and> sint (SerializationRetryStartInterval E) * int i < 2 ^ 63
        \<longrightarrow> sint (SerializationRetryStartInterval E * of_nat i)
            = sint (SerializationRetryStartInterval E) * int i)"
proof -
  have "sleeps_before (trace (Transact E h d S opts)) [] =
     map (\<lambda>i. if i = 0 then [] else [SerializationRetryStartInterval E * of_nat i])
         [0..<begins (Transact E h d S opts)]"
  proof (cases rule: Transact_cases [of E S h d opts])
    case exhausted
    show ?thesis
      unfolding begins_exhausted [OF exhausted(1)]
      unfolding exhausted(2)
      by (simp add: sleeps_before_attempts del: upt_Suc)
  next
    case (stopped n)
    show ?thesis
      unfolding begins_stopped [OF stopped(1,2,3)]
      unfolding stopped(4)
      using sleeps_before_attempts [of E S "applied_options E h d opts" "[0..<Suc n]" "[]"]
      by (simp del: upt_Suc)
  qed
  then show ?thesis by (simp add: sint_mult_of_nat)
qed

text \<open>The sample call with two conflicts, in full.\<close>

lemma third_time_lucky_run:
  "Transact sample_env sample_heap 0 third_time_lucky [] =
     \<lparr>ret = Some ''ok'', err = None,
      trace = [EvBeginTxx ''background'' 6 False, EvFn, EvRollback,
               EvRetryInc, EvWarnRetry ''default'' 1 10000000, EvSleep 10000000,
               EvBeginTxx ''background'' 6 False, EvFn, EvRollback,
               EvRetryInc, EvWarnRetry ''default'' 2 20000000, EvSleep 20000000,
               EvBeginTxx ''background'' 6 False, EvFn, EvCommit]\<rparr>"
proof -
  have n: "2 < SerializationRetryMaxAttempts sample_env" by (simp add: sample_env_def)
  have r: "\<forall>j<2. retried sample_env third_time_lucky j"
    by (simp add: retried_def third_time_lucky_def sample_env_def)
  have s: "\<not> retried sample_env third_time_lucky 2"
    by (simp add: retried_def third_time_lucky_def)
  have u: "[0..<Suc 2] = [0, 1, 2]" by (simp add: upt_rec)
  show ?thesis
    unfolding Transact_stopped [OF n r s] u
    by (simp add: attempt_result_def attempt_events_def prelude_def begin_event_def
          applied_options_def getTxOptions_def sample_heap_def third_time_lucky_def sample_env_def)
qed

text \<open>With an interval of ten milliseconds: no sleep, then ten, then twenty milliseconds.\<close>

theorem Transact_delays_witness:
  "sleeps_before (trace (Transact sample_env sample_heap 0 third_time_lucky [])) []
     = [[], [10000000], [20000000]]
   \<and> SerializationRetryStartInterval sample_env = 10000000
   \<and> sint (SerializationRetryStartInterval sample_env * of_nat 2) = 20000000"
proof -
  have b: "begins (Transact sample_env sample_heap 0 third_time_lucky []) = 3"
    by (simp add: third_time_lucky_run begins_def)
  have u: "[0..<3] = [0, 1, Suc 1]" by (simp add: upt_rec)
  show ?thesis
    using Transact_delays [of sample_env sample_heap 0 third_time_lucky "[]"]
    unfolding b u
    by (simp add: sample_env_def)
qed

subsection \<open>Outcome, number of attempts, and the life of a transaction\<close>

lemma calls_attempt_calls: "calls (attempt_events E S options i) = attempt_calls S i"
  by (simp add: calls_attempt_events attempt_calls_def)

lemma split_calls_attempt:
  assumes "fst (split_calls rest) = []"
  shows "split_calls (attempt_calls S i @ rest) = ([], attempt_calls S i # snd (split_calls rest))"
  using assms by (cases "split_calls rest") (simp add: attempt_calls_def)

lemma split_calls_attempts:
  "split_calls (concat (map (attempt_calls S) js)) = ([], map (attempt_calls S) js)"
  by (induction js) (simp_all add: split_calls_attempt)

lemma attempts_of_attempts:
  "attempts_of (calls (concat (map (attempt_events E S options) [0..<n])))
     = map (attempt_calls S) [0..<n]"
  by (simp add: attempts_of_def calls_concat comp_def calls_attempt_calls split_calls_attempts
           del: upt_Suc)

lemma attempt_result_success:
  "snd (attempt_result S n) = None \<longleftrightarrow>
     BeginTxx S n = None \<and> snd (fn S n) = None \<and> Commit S n = None"
  by (simp add: attempt_result_def split: option.splits)

lemma attempt_result_success_ret:
  "snd (attempt_result S n) = None \<Longrightarrow> fst (attempt_result S n) = fst (fn S n)"
  by (simp add: attempt_result_def split: option.splits)

lemma calls_attempts_Suc:
  "calls (concat (map (attempt_events E S options) [0..<Suc n])) =
     calls (concat (map (attempt_events E S options) [0..<n])) @ attempt_calls S n"
  by (simp add: calls_append calls_attempt_calls)

lemma attempt_calls_last:
  "attempt_calls S n \<noteq> [] \<and>
   (last (attempt_calls S n) = CommitCall \<longleftrightarrow> BeginTxx S n = None \<and> snd (fn S n) = None)"
  by (simp add: attempt_calls_def)

lemma attempt_calls_counts:
  "count_list (attempt_calls S i) BeginCall = 1 \<and>
   count_list (attempt_calls S i) CommitCall + count_list (attempt_calls S i) RollbackCall
     = (if BeginTxx S i = None then 1 else 0)"
  by (simp add: attempt_calls_def)

lemma attempts_of_Transact:
  "attempts_of (calls (trace (Transact E h d S opts))) =
     map (attempt_calls S) [0..<begins (Transact E h d S opts)]"
proof (cases rule: Transact_cases [of E S h d opts])
  case exhausted
  have "calls (trace (Transact E h d S opts)) =
        calls (concat (map (attempt_events E S (applied_options E h d opts))
                 [0..<SerializationRetryMaxAttempts E]))"
    unfolding exhausted(2) by (simp add: calls_append)
  then show ?thesis
    unfolding begins_exhausted [OF exhausted(1)] by (simp only: attempts_of_attempts)
next
  case (stopped n)
  show ?thesis
    unfolding begins_stopped [OF stopped(1,2,3)]
    unfolding stopped(4) by (simp only: outcome.simps attempts_of_attempts)
qed

text \<open>
  Claim C7, as amended. For every call of \<^verbatim>\<open>Transact\<close>: exactly one of success with
  commit and terminal error is the outcome; the number of attempts does not exceed
  \<^verbatim>\<open>SerializationRetryMaxAttempts\<close>; and the calls of attempt \<open>i\<close> are one begin, followed,
  when the begin succeeded, by \<^verbatim>\<open>fn\<close> and exactly one termination of the transaction
  (rollback when \<^verbatim>\<open>fn\<close> failed, commit when it succeeded), and by nothing when the
  begin failed: there is then no transaction to terminate.
\<close>

theorem Transact_invariant:
  "success_with_commit S (Transact E h d S opts) \<noteq> terminal_error (Transact E h d S opts)
   \<and> begins (Transact E h d S opts) \<le> SerializationRetryMaxAttempts E
   \<and> attempts_of (calls (trace (Transact E h d S opts))) =
       map (attempt_calls S) [0..<begins (Transact E h d S opts)]
   \<and> list_all2
       (\<lambda>i g. count_list g BeginCall = 1 \<and>
              count_list g CommitCall + count_list g RollbackCall
                = (if BeginTxx S i = None then 1 else 0))
       [0..<begins (Transact E h d S opts)]
       (attempts_of (calls (trace (Transact E h d S opts))))"
proof -
  let ?R = "Transact E h d S opts"
  have a: "success_with_commit S ?R \<noteq> terminal_error ?R \<and>
           begins ?R \<le> SerializationRetryMaxAttempts E"
  proof (cases rule: Transact_cases [of E S h d opts])
    case exhausted
    have "terminal_error ?R" "\<not> success_with_commit S ?R"
      unfolding exhausted(2) by (simp_all add: terminal_error_def success_with_commit_def)
    then show ?thesis using begins_exhausted [OF exhausted(1), of h d opts] by simp
  next
    case (stopped n)
    note b = begins_stopped [OF stopped(1,2,3), of h d opts]
    have c: "calls (trace ?R) \<noteq> [] \<and>
        (last (calls (trace ?R)) = CommitCall \<longleftrightarrow> BeginTxx S n = None \<and> snd (fn S n) = None)"
      unfolding stopped(4) using attempt_calls_last [of S n]
      by (simp only: outcome.simps calls_attempts_Suc) simp
    have e: "err ?R = snd (attempt_result S n)" "ret ?R = fst (attempt_result S n)"
      by (simp_all add: stopped(4))
    show ?thesis
    proof (cases "snd (attempt_result S n)")
      case None
      then have "success_with_commit S ?R" "\<not> terminal_error ?R"
        using c e b attempt_result_success [of S n] attempt_result_success_ret [of S n]
        by (simp_all add: success_with_commit_def terminal_error_def)
      then show ?thesis using b stopped(1) by simp
    next
      case (Some x)
      then have "\<not> success_with_commit S ?R" "terminal_error ?R"
        using e attempt_result_error_nil [of S n]
        by (simp_all add: success_with_commit_def terminal_error_def)
      then show ?thesis using b stopped(1) by simp
    qed
  qed
  have l: "list_all2
       (\<lambda>i g. count_list g BeginCall = 1 \<and>
              count_list g CommitCall + count_list g RollbackCall
                = (if BeginTxx S i = None then 1 else 0))
       [0..<begins ?R] (map (attempt_calls S) [0..<begins ?R])"
    by (simp only: list_all2_map2 list_all2_same attempt_calls_counts) simp
  show ?thesis
    using a l by (simp only: attempts_of_Transact) simp
qed

text \<open>Three attempts: two rolled back, the third committed.\<close>

theorem Transact_invariant_witness:
  "success_with_commit third_time_lucky (Transact sample_env sample_heap 0 third_time_lucky [])
   \<and> \<not> terminal_error (Transact sample_env sample_heap 0 third_time_lucky [])
   \<and> begins (Transact sample_env sample_heap 0 third_time_lucky []) = 3
   \<and> attempts_of (calls (trace (Transact sample_env sample_heap 0 third_time_lucky []))) =
       [[BeginCall, FnCall, RollbackCall], [BeginCall, FnCall, RollbackCall],
        [BeginCall, FnCall, CommitCall]]"
proof -
  have b: "begins (Transact sample_env sample_heap 0 third_time_lucky []) = 3"
    by (simp add: third_time_lucky_run begins_def)
  have s: "success_with_commit third_time_lucky (Transact sample_env sample_heap 0 third_time_lucky [])"
    unfolding success_with_commit_def b
    by (simp add: third_time_lucky_run) (simp add: third_time_lucky_def)
  have u: "[0..<3] = [0, 1, Suc 1]" by (simp add: upt_rec)
  show ?thesis
    using Transact_invariant [of third_time_lucky sample_env sample_heap 0 "[]"] s
    unfolding b u
    by (simp add: attempt_calls_def third_time_lucky_def)
qed

text \<open>
  The claim as first stated asks for a begin and a termination in each attempt. The
  attempt of the sample call below fails to begin: it consists of the begin alone.
\<close>

theorem Transact_begin_failure_unterminated:
  "attempts_of (calls (trace (Transact sample_env sample_heap 0 begin_fails []))) = [[BeginCall]]
   \<and> \<not> list_all terminated_once
         (attempts_of (calls (trace (Transact sample_env sample_heap 0 begin_fails []))))"
proof -
  have s: "\<not> retried sample_env begin_fails 0"
    by (simp add: retried_def begin_fails_def)
  have "calls (trace (Transact sample_env sample_heap 0 begin_fails [])) = [BeginCall]"
    unfolding sample_first_attempt [OF s]
    by (simp add: calls_attempt_events begin_fails_def)
  then show ?thesis
    by (simp add: attempts_of_def terminated_once_def)
qed

section \<open>Properties of WithContext\<close>

lemma WithContext_new:
  "snd (WithContext E h d c) = facade_next h
   \<and> facade_at (fst (WithContext E h d c)) (facade_next h)
       = \<lparr>db = db (facade_at h d), queryOptions = Some (opts_next h)\<rparr>
   \<and> opts_at (fst (WithContext E h d c)) (opts_next h)
       = \<lparr>logger = logger_WithContext E (logging_Default E) c, ctx = c\<rparr>"
  by (simp add: WithContext_def Let_def)

lemma WithContext_old:
  "(a \<noteq> facade_next h \<longrightarrow> facade_at (fst (WithContext E h d c)) a = facade_at h a)
   \<and> (q \<noteq> opts_next h \<longrightarrow> opts_at (fst (WithContext E h d c)) q = opts_at h q)"
  by (simp add: WithContext_def Let_def)

lemma allocated_frame:
  assumes "allocated h d"
  shows "facade_at (fst (WithContext E h d' c)) d = facade_at h d"
    and "queryOptions (facade_at h d) = Some q \<Longrightarrow> opts_at (fst (WithContext E h d' c)) q = opts_at h q"
  using assms WithContext_old [where a = d and h = h and E = E and d = d' and c = c and q = q]
  by (auto simp: allocated_def)

text \<open>
  Claim C8, as amended. For a facade \<open>d\<close> in use and a context \<open>c\<close>, \<^verbatim>\<open>WithContext\<close>
  returns a facade at a new address whose options carry \<open>c\<close> and the default logger
  derived for \<open>c\<close>, so that \<^verbatim>\<open>getContext\<close>, \<^verbatim>\<open>getLogger\<close> and \<^verbatim>\<open>getTxOptions\<close> on it
  observe them. The facade \<open>d\<close> and its \<^verbatim>\<open>QueryOptions\<close> are unchanged, and \<^verbatim>\<open>getContext\<close>,
  \<^verbatim>\<open>getLogger\<close>, \<^verbatim>\<open>getTxOptions\<close> and \<^verbatim>\<open>Transact\<close> on \<open>d\<close> give what they gave before.
  The two facades have separate \<^verbatim>\<open>QueryOptions\<close>; the one object both point to is the
  connection pool.
\<close>

theorem WithContext_derives:
  assumes "allocated h d"
  shows "snd (WithContext E h d c) \<noteq> d
       \<and> \<not> allocated h (snd (WithContext E h d c))
       \<and> allocated (fst (WithContext E h d c)) (snd (WithContext E h d c))
       \<and> getContext E (fst (WithContext E h d c)) (snd (WithContext E h d c)) = c
       \<and> getLogger E (fst (WithContext E h d c)) (snd (WithContext E h d c))
           = logger_WithContext E (logging_Default E) c
       \<and> getTxOptions E (fst (WithContext E h d c)) (snd (WithContext E h d c))
           = (DefaultTxOptions E)\<lparr>tx_logger := logger_WithContext E (logging_Default E) c,
                                    tx_ctx := c\<rparr>
       \<and> facade_at (fst (WithContext E h d c)) d = facade_at h d
       \<and> (\<forall>q. queryOptions (facade_at h d) = Some q
              \<longrightarrow> opts_at (fst (WithContext E h d c)) q = opts_at h q)
       \<and> allocated (fst (WithContext E h d c)) d
       \<and> getContext E (fst (WithContext E h d c)) d = getContext E h d
       \<and> getLogger E (fst (WithContext E h d c)) d = getLogger E h d
       \<and> getTxOptions E (fst (WithContext E h d c)) d = getTxOptions E h d
       \<and> Transact E (fst (WithContext E h d c)) d S opts = Transact E h d S opts
       \<and> refs (fst (WithContext E h d c)) d \<inter> refs (fst (WithContext E h d c)) (snd (WithContext E h d c))
           = {PoolRef (db (facade_at h d))}"
proof -
  let ?h = "fst (WithContext E h d c)" and ?a = "snd (WithContext E h d c)"
  note new = WithContext_new [of E h d c]
  have a: "?a = facade_next h" using new by simp
  have d: "d < facade_next h" using assms by (simp add: allocated_def)
  have f: "facade_at ?h d = facade_at h d" by (rule allocated_frame(1) [OF assms])
  have o: "\<forall>q. queryOptions (facade_at h d) = Some q \<longrightarrow> opts_at ?h q = opts_at h q"
    using allocated_frame(2) [OF assms] by blast
  have n: "opts_next ?h = Suc (opts_next h)" "facade_next ?h = Suc (facade_next h)"
    by (simp_all add: WithContext_def Let_def)
  have 1: "?a \<noteq> d" using a d by simp
  have 2: "\<not> allocated h ?a" by (simp add: a allocated_def)
  have 3: "allocated ?h ?a" using new n by (simp add: allocated_def)
  have 4: "getContext E ?h ?a = c" using new by (simp add: getContext_def)
  have 5: "getLogger E ?h ?a = logger_WithContext E (logging_Default E) c"
    using new by (simp add: getLogger_def)
  have 6: "getTxOptions E ?h ?a
           = (DefaultTxOptions E)\<lparr>tx_logger := logger_WithContext E (logging_Default E) c,
                                    tx_ctx := c\<rparr>"
    using new by (simp add: getTxOptions_def)
  have 7: "allocated ?h d"
    using assms f n by (auto simp: allocated_def split: option.splits)
  have 8: "getContext E ?h d = getContext E h d"
    using f o by (simp add: getContext_def split: option.splits)
  have 9: "getLogger E ?h d = getLogger E h d"
    using f o by (simp add: getLogger_def split: option.splits)
  have 10: "getTxOptions E ?h d = getTxOptions E h d"
    using f o by (cases "queryOptions (facade_at h d)") (simp_all add: getTxOptions_def)
  have 11: "Transact E ?h d S opts = Transact E h d S opts"
    by (simp add: Transact_def 10)
  have q: "queryOptions (facade_at h d) \<noteq> Some (opts_next h)"
    using assms by (auto simp: allocated_def)
  have 12: "refs ?h d \<inter> refs ?h ?a = {PoolRef (db (facade_at h d))}"
    using new q by (auto simp: refs_def f a split: option.splits)
  from 1 2 3 4 5 6 f o 7 8 9 10 11 12 show ?thesis by (intro conjI)
qed

lemma request_heap_allocated: "allocated request_heap 1"
  by (simp add: request_heap_def allocated_def WithContext_def sample_heap_def Let_def)

text \<open>
  Deriving a facade for the context \<open>job\<close> from facade 1, which has options of its own.
\<close>

theorem WithContext_derives_witness:
  "allocated request_heap 1
   \<and> getContext sample_env request_heap 1 = ''request''
   \<and> snd (WithContext sample_env request_heap 1 ''job'') = 2
   \<and> getContext sample_env (fst (WithContext sample_env request_heap 1 ''job'')) 2 = ''job''
   \<and> getLogger sample_env (fst (WithContext sample_env request_heap 1 ''job'')) 2 = ''default/job''
   \<and> getContext sample_env (fst (WithContext sample_env request_heap 1 ''job'')) 1 = ''request''
   \<and> getLogger sample_env (fst (WithContext sample_env request_heap 1 ''job'')) 1 = ''default/request''
   \<and> refs (fst (WithContext sample_env request_heap 1 ''job'')) 1
       \<inter> refs (fst (WithContext sample_env request_heap 1 ''job'')) 2 = {PoolRef 0}"
proof -
  let ?h = "fst (WithContext sample_env request_heap 1 ''job'')"
  have a: "snd (WithContext sample_env request_heap 1 ''job'') = 2"
    by (simp add: WithContext_def request_heap_def sample_heap_def Let_def)
  have g: "getContext sample_env request_heap 1 = ''request''"
      "getLogger sample_env request_heap 1 = ''default/request''"
      "db (facade_at request_heap 1) = 0"
    by (simp_all add: getContext_def getLogger_def WithContext_def request_heap_def
          sample_heap_def sample_env_def Let_def)
  have l: "logger_WithContext sample_env (logging_Default sample_env) ''job'' = ''default/job''"
    by (simp add: sample_env_def)
  note T = WithContext_derives [OF request_heap_allocated, of sample_env "''job''", unfolded a g l]
  have "getContext sample_env ?h 2 = ''job''"
    "getLogger sample_env ?h 2 = ''default/job''"
    "getContext sample_env ?h 1 = ''request''"
    "getLogger sample_env ?h 1 = ''default/request''"
    "refs ?h 1 \<inter> refs ?h 2 = {PoolRef 0}"
    using T by blast+
  then show ?thesis
    using request_heap_allocated a g by simp
qed

text \<open>
  The claim as first stated has no mutable state shared between the two facades.
  \<^verbatim>\<open>WithContext\<close> copies the pointer \<^verbatim>\<open>d.db\<close>: in the sample store the original and the
  derived facade both point to the pool at address 0.
\<close>

theorem WithContext_shares_pool:
  "PoolRef 0 \<in> refs (fst (WithContext sample_env sample_heap 0 ''request'')) 0
   \<and> PoolRef 0 \<in> refs (fst (WithContext sample_env sample_heap 0 ''request''))
                     (snd (WithContext sample_env sample_heap 0 ''request''))
   \<and> refs (fst (WithContext sample_env sample_heap 0 ''request'')) 0
       \<inter> refs (fst (WithContext sample_env sample_heap 0 ''request''))
              (snd (WithContext sample_env sample_heap 0 ''request'')) \<noteq> {}"
  by (simp add: refs_def WithContext_def sample_heap_def Let_def)

section \<open>Properties of Metadata\<close>

lemma Transact_success_ret:
  assumes "err (Transact E h d S opts) = None"
  obtains n where "ret (Transact E h d S opts) = fst (fn S n)" "snd (fn S n) = None"
proof (cases rule: Transact_cases [of E S h d opts])
  case exhausted
  then show ?thesis using assms by simp
next
  case (stopped n)
  then have "snd (attempt_result S n) = None" using assms by simp
  then have "fst (attempt_result S n) = fst (fn S n)" "snd (fn S n) = None"
    by (simp_all add: attempt_result_success_ret attempt_result_success)
  then show ?thesis using that [of n] stopped(4) by simp
qed

lemma getVersion_cases:
  obtains e where "getVersion E h d Q = Some ('''', Some e)"
  | v where "getVersion E h d Q = Some (v, None)"
proof (cases "err (Transact E h d (closure_script (getVersion_fn Q) Q)
                [ReadOnly, WithLogger (logging_Dummy E)])")
  case None
  from Transact_success_ret [OF this] obtain n where
    n: "ret (Transact E h d (closure_script (getVersion_fn Q) Q)
                [ReadOnly, WithLogger (logging_Dummy E)]) = fst (getVersion_fn Q n)"
       "snd (getVersion_fn Q n) = None"
    by (auto simp: closure_script_def)
  then obtain v where "fst (getVersion_fn Q n) = Some (GoString v)"
    by (auto simp: getVersion_fn_def split: sum.splits)
  with n None have "getVersion E h d Q = Some (v, None)"
    by (simp add: getVersion_def)
  then show ?thesis using that(2) by blast
next
  case (Some e)
  then have "getVersion E h d Q = Some ('''', Some e)"
    by (simp add: getVersion_def)
  then show ?thesis using that(1) by blast
qed

lemma getAuroraVersion_cases:
  obtains e where "getAuroraVersion E h d Q = Some ('''', Some e)"
  | v where "getAuroraVersion E h d Q = Some (v, None)"
proof (cases "err (Transact E h d (closure_script (getAuroraVersion_fn Q) Q)
                [ReadOnly, WithLogger (logging_Dummy E)])")
  case None
  from Transact_success_ret [OF this] obtain n where
    n: "ret (Transact E h d (closure_script (getAuroraVersion_fn Q) Q)
                [ReadOnly, WithLogger (logging_Dummy E)]) = fst (getAuroraVersion_fn Q n)"
       "snd (getAuroraVersion_fn Q n) = None"
    by (auto simp: closure_script_def)
  then obtain v where "fst (getAuroraVersion_fn Q n) = Some (GoString v)"
    by (auto simp: getAuroraVersion_fn_def split: sum.splits)
  with n None have "getAuroraVersion E h d Q = Some (v, None)"
    by (simp add: getAuroraVersion_def)
  then show ?thesis using that(2) by blast
next
  case (Some e)
  then have "getAuroraVersion E h d Q = Some ('''', Some e)"
    by (simp add: getAuroraVersion_def)
  then show ?thesis using that(1) by blast
qed

lemma distinct_collect_settings:
  "distinct (map fst settings) \<Longrightarrow> distinct (map fst (collect_settings pgs settings))"
  by (induction pgs arbitrary: settings) (simp_all add: distinct_update)

lemma settings_query_cases:
  obtains e where "err (settings_query E h d W) = Some e"
  | settings where "err (settings_query E h d W) = None"
      "ret (settings_query E h d W) = Some (GoSettings settings)" "distinct (map fst settings)"
proof (cases "err (settings_query E h d W)")
  case None
  from Transact_success_ret [OF this [unfolded settings_query_def]] obtain n where
    n: "ret (settings_query E h d W) = fst (Metadata_fn (settings_run W) n)"
       "snd (Metadata_fn (settings_run W) n) = None"
    by (auto simp: closure_script_def settings_query_def)
  then obtain pgs where "fst (Metadata_fn (settings_run W) n) = Some (GoSettings (collect_settings pgs []))"
    by (auto simp: Metadata_fn_def split: sum.splits)
  with n None show ?thesis
    using that(2) [of "collect_settings pgs []"] by (simp add: distinct_collect_settings)
next
  case (Some e)
  then show ?thesis using that(1) by blast
qed

lemma map_of_merge_settings:
  assumes "distinct (map fst settings)"
  shows "map_of (merge_settings settings metadata) (''postgresql_setting_'' @ k) =
         (case map_of settings k of
            Some v \<Rightarrow> Some v
          | None \<Rightarrow> map_of metadata (''postgresql_setting_'' @ k))"
  using assms
proof (induction settings metadata rule: merge_settings.induct)
  case (1 metadata)
  show ?case by simp
next
  case (2 k0 v0 settings metadata)
  then have "map_of settings k0 = None"
    by (simp add: map_of_eq_None_iff)
  with 2 show ?case
    by (auto simp: update_conv' split: option.splits)
qed

lemma map_of_merge_settings_other:
  assumes "\<forall>k. key \<noteq> ''postgresql_setting_'' @ k"
  shows "map_of (merge_settings settings metadata) key = map_of metadata key"
  using assms
  by (induction settings metadata rule: merge_settings.induct) (simp_all add: update_conv')

lemma getVersion_total: "\<exists>v e. getVersion E h d Q = Some (v, e)"
  by (rule getVersion_cases [of E h d Q]) auto

lemma getAuroraVersion_total: "\<exists>v e. getAuroraVersion E h d Q = Some (v, e)"
  by (rule getAuroraVersion_cases [of E h d Q]) auto

lemma version_keys:
  "''postgresql_version'' \<noteq> ''postgresql_aurora_version''"
  "''postgresql_version'' \<noteq> ''postgresql_setting_'' @ k"
  "''postgresql_aurora_version'' \<noteq> ''postgresql_setting_'' @ k"
  by simp_all

text \<open>
  Claim C9. \<^verbatim>\<open>Metadata\<close> always returns a map and a nil error, whatever its three queries
  meet, and never panics. The map holds the key \<^verbatim>\<open>postgresql_version\<close> exactly when
  \<^verbatim>\<open>getVersion\<close> succeeded, with the version; the key \<^verbatim>\<open>postgresql_aurora_version\<close>
  exactly when \<^verbatim>\<open>getAuroraVersion\<close> succeeded; under the prefix \<^verbatim>\<open>postgresql_setting_\<close>
  the settings of the third query when it succeeded and nothing when it failed; and no
  other key. A failed query thus leaves its entries out, and the entries of the others
  are returned.
\<close>

theorem Metadata_tolerates_failure:
  "\<exists>metadata.
     Metadata E h d W = Some (metadata, None)
   \<and> map_of metadata ''postgresql_version'' =
       (case getVersion E h d (version_run W) of Some (v, None) \<Rightarrow> Some v | _ \<Rightarrow> None)
   \<and> map_of metadata ''postgresql_aurora_version'' =
       (case getAuroraVersion E h d (aurora_run W) of Some (v, None) \<Rightarrow> Some v | _ \<Rightarrow> None)
   \<and> (\<forall>k. map_of metadata (''postgresql_setting_'' @ k) =
            (case err (settings_query E h d W) of
               Some e \<Rightarrow> None
             | None \<Rightarrow> settings_of (ret (settings_query E h d W)) k))
   \<and> (\<forall>key. map_of metadata key \<noteq> None \<longrightarrow>
            key = ''postgresql_version'' \<or> key = ''postgresql_aurora_version''
          \<or> (\<exists>k. key = ''postgresql_setting_'' @ k))"
proof -
  obtain v1 e1 where g1: "getVersion E h d (version_run W) = Some (v1, e1)"
    using getVersion_total by blast
  obtain v2 e2 where g2: "getAuroraVersion E h d (aurora_run W) = Some (v2, e2)"
    using getAuroraVersion_total by blast
  define md1 where "md1 = (if e1 = None then AList.update ''postgresql_version'' v1 [] else [])"
  define md2 where
    "md2 = (if e2 = None then AList.update ''postgresql_aurora_version'' v2 md1 else md1)"
  have c1: "(case getVersion E h d (version_run W) of Some (v, None) \<Rightarrow> Some v | _ \<Rightarrow> None)
            = (if e1 = None then Some v1 else None)"
    by (cases e1) (simp_all add: g1)
  have c2: "(case getAuroraVersion E h d (aurora_run W) of Some (v, None) \<Rightarrow> Some v | _ \<Rightarrow> None)
            = (if e2 = None then Some v2 else None)"
    by (cases e2) (simp_all add: g2)
  have m1: "map_of md2 ''postgresql_version'' = (if e1 = None then Some v1 else None)"
    by (simp add: md2_def md1_def update_conv')
  have m2: "map_of md2 ''postgresql_aurora_version'' = (if e2 = None then Some v2 else None)"
    by (simp add: md2_def md1_def update_conv')
  have m3: "map_of md2 (''postgresql_setting_'' @ k) = None" for k
    by (simp add: md2_def md1_def update_conv')
  have m4: "map_of md2 key \<noteq> None \<longrightarrow>
            key = ''postgresql_version'' \<or> key = ''postgresql_aurora_version''" for key
    by (auto simp: md2_def md1_def update_conv' split: if_splits)
  have M: "Metadata E h d W =
      (case err (settings_query E h d W) of
         Some e \<Rightarrow> Some (md2, None)
       | None \<Rightarrow>
          (case ret (settings_query E h d W) of
             Some (GoSettings settings) \<Rightarrow> Some (merge_settings settings md2, None)
           | _ \<Rightarrow> None))"
    unfolding md2_def md1_def settings_query_def
    by (cases e1; cases e2)
       (simp_all add: Metadata_def g1 g2 Let_def split: option.splits goval.splits)
  have final: ?thesis
    if R: "Metadata E h d W = Some (md, None)"
      and k1: "map_of md ''postgresql_version'' = (if e1 = None then Some v1 else None)"
      and k2: "map_of md ''postgresql_aurora_version'' = (if e2 = None then Some v2 else None)"
      and k3: "\<And>k. map_of md (''postgresql_setting_'' @ k) =
            (case err (settings_query E h d W) of
               Some e \<Rightarrow> None
             | None \<Rightarrow> settings_of (ret (settings_query E h d W)) k)"
      and k4: "\<And>key. map_of md key \<noteq> None \<Longrightarrow>
            key = ''postgresql_version'' \<or> key = ''postgresql_aurora_version''
          \<or> (\<exists>k. key = ''postgresql_setting_'' @ k)"
    for md
  proof (intro exI [of _ md] conjI allI impI)
    show "Metadata E h d W = Some (md, None)" by (rule R)
    show "map_of md ''postgresql_version'' =
       (case getVersion E h d (version_run W) of Some (v, None) \<Rightarrow> Some v | _ \<Rightarrow> None)"
      by (simp only: k1 c1)
    show "map_of md ''postgresql_aurora_version'' =
       (case getAuroraVersion E h d (aurora_run W) of Some (v, None) \<Rightarrow> Some v | _ \<Rightarrow> None)"
      by (simp only: k2 c2)
    show "map_of md (''postgresql_setting_'' @ k) =
            (case err (settings_query E h d W) of
               Some e \<Rightarrow> None
             | None \<Rightarrow> settings_of (ret (settings_query E h d W)) k)" for k
      by (rule k3)
    show "key = ''postgresql_version'' \<or> key = ''postgresql_aurora_version''
          \<or> (\<exists>k. key = ''postgresql_setting_'' @ k)" if "map_of md key \<noteq> None" for key
      using that by (rule k4)
  qed
  show ?thesis
  proof (cases rule: settings_query_cases [of E h d W])
    case (1 e)
    have R: "Metadata E h d W = Some (md2, None)" by (simp add: M 1)
    have k3: "map_of md2 (''postgresql_setting_'' @ k) =
            (case err (settings_query E h d W) of
               Some e \<Rightarrow> None
             | None \<Rightarrow> settings_of (ret (settings_query E h d W)) k)" for k
      by (simp only: m3 1 option.case)
    have k4: "key = ''postgresql_version'' \<or> key = ''postgresql_aurora_version''
          \<or> (\<exists>k. key = ''postgresql_setting_'' @ k)" if "map_of md2 key \<noteq> None" for key
      using that m4 [of key] by blast
    show ?thesis by (rule final [OF R m1 m2 k3 k4])
  next
    case (2 settings)
    let ?md = "merge_settings settings md2"
    have R: "Metadata E h d W = Some (?md, None)" by (simp add: M 2)
    have k1: "map_of ?md ''postgresql_version'' = (if e1 = None then Some v1 else None)"
      using map_of_merge_settings_other [of "''postgresql_version''" settings md2] m1
      by (simp only: version_keys simp_thms)
    have k2: "map_of ?md ''postgresql_aurora_version'' = (if e2 = None then Some v2 else None)"
      using map_of_merge_settings_other [of "''postgresql_aurora_version''" settings md2] m2
      by (simp only: version_keys simp_thms)
    have "map_of ?md (''postgresql_setting_'' @ k) = map_of settings k" for k
      using map_of_merge_settings [OF 2(3), of md2 k] m3 [of k]
      by (cases "map_of settings k") simp_all
    then have k3: "map_of ?md (''postgresql_setting_'' @ k) =
            (case err (settings_query E h d W) of
               Some e \<Rightarrow> None
             | None \<Rightarrow> settings_of (ret (settings_query E h d W)) k)" for k
      by (simp only: 2 option.case settings_of_def goval.case)
    have k4: "key = ''postgresql_version'' \<or> key = ''postgresql_aurora_version''
          \<or> (\<exists>k. key = ''postgresql_setting_'' @ k)" if "map_of ?md key \<noteq> None" for key
      using that map_of_merge_settings_other [of key settings md2] m4 [of key] by metis
    show ?thesis by (rule final [OF R k1 k2 k3 k4])
  qed
qed

text \<open>The sample servers.\<close>

lemma Transact_first_attempt:
  assumes "0 < SerializationRetryMaxAttempts E" "\<not> retried E S 0"
  shows "ret (Transact E h d S opts) = fst (attempt_result S 0)"
    and "err (Transact E h d S opts) = snd (attempt_result S 0)"
proof -
  have "\<forall>j<0. retried E S j" by simp
  from Transact_stopped [OF assms(1) this assms(2), of h d opts]
  show "ret (Transact E h d S opts) = fst (attempt_result S 0)"
    and "err (Transact E h d S opts) = snd (attempt_result S 0)"
    by simp_all
qed

lemma sample_attempts: "0 < SerializationRetryMaxAttempts sample_env"
  by (simp add: sample_env_def)

lemma working_run_Transact:
  assumes "f 0 = (r, None)"
  shows "ret (Transact sample_env h d (closure_script f (working_run a)) opts) = r"
    and "err (Transact sample_env h d (closure_script f (working_run a)) opts) = None"
proof -
  have s: "\<not> retried sample_env (closure_script f (working_run a)) 0"
    using assms by (simp add: retried_def closure_script_def working_run_def)
  have r: "attempt_result (closure_script f (working_run a)) 0 = (r, None)"
    using assms by (simp add: attempt_result_def closure_script_def working_run_def)
  show "ret (Transact sample_env h d (closure_script f (working_run a)) opts) = r"
    and "err (Transact sample_env h d (closure_script f (working_run a)) opts) = None"
    by (simp_all add: Transact_first_attempt [OF sample_attempts s] r)
qed

lemma failing_run_Transact:
  assumes "snd (f 0) = Some e" "\<not> IsSerializationError sample_env e"
  shows "err (Transact sample_env h d (closure_script f (failing_run e')) opts) = Some e"
proof -
  have s: "\<not> retried sample_env (closure_script f (failing_run e')) 0"
    using assms by (simp add: retried_def closure_script_def failing_run_def)
  have r: "snd (attempt_result (closure_script f (failing_run e')) 0) = Some e"
    using assms by (simp add: attempt_result_def closure_script_def failing_run_def)
  show ?thesis
    by (simp add: Transact_first_attempt [OF sample_attempts s] r)
qed

lemma sample_getVersion:
  "getVersion sample_env h d (working_run v) = Some (v, None)"
proof -
  have f: "getVersion_fn (working_run v) 0 = (Some (GoString v), None)"
    by (simp add: getVersion_fn_def working_run_def)
  show ?thesis
    unfolding getVersion_def Let_def
      working_run_Transact [of "getVersion_fn (working_run v)", OF f] by simp
qed

lemma sample_getAuroraVersion:
  "getAuroraVersion sample_env h d (failing_run (PgError ''42883''))
     = Some ([], Some (PgError ''42883''))"
proof -
  have f: "snd (getAuroraVersion_fn (failing_run (PgError ''42883'')) 0) = Some (PgError ''42883'')"
    by (simp add: getAuroraVersion_fn_def failing_run_def)
  have n: "\<not> IsSerializationError sample_env (PgError ''42883'')"
    by (simp add: sample_env_def)
  show ?thesis
    unfolding getAuroraVersion_def Let_def
      failing_run_Transact [of "getAuroraVersion_fn (failing_run (PgError ''42883''))", OF f n]
    by simp
qed

lemma sample_settings_query:
  "err (settings_query sample_env h d plain_postgres) = None"
  "ret (settings_query sample_env h d plain_postgres)
     = Some (GoSettings [(''is_rds'', ''true''), (''TimeZone'', ''UTC'')])"
proof -
  have f: "Metadata_fn (working_run
        [\<lparr>Name = ''data_directory'', Setting = ''/rdsdata/db''\<rparr>,
         \<lparr>Name = ''TimeZone'', Setting = ''UTC''\<rparr>]) 0
      = (Some (GoSettings [(''is_rds'', ''true''), (''TimeZone'', ''UTC'')]), None)"
    by (simp add: Metadata_fn_def working_run_def HasPrefix_def FormatBool_def)
  have s: "settings_run plain_postgres = working_run
        [\<lparr>Name = ''data_directory'', Setting = ''/rdsdata/db''\<rparr>,
         \<lparr>Name = ''TimeZone'', Setting = ''UTC''\<rparr>]"
    by (simp add: plain_postgres_def)
  show "err (settings_query sample_env h d plain_postgres) = None"
    and "ret (settings_query sample_env h d plain_postgres)
     = Some (GoSettings [(''is_rds'', ''true''), (''TimeZone'', ''UTC'')])"
    unfolding settings_query_def s
    by (simp_all only: working_run_Transact [of "Metadata_fn (working_run
        [\<lparr>Name = ''data_directory'', Setting = ''/rdsdata/db''\<rparr>,
         \<lparr>Name = ''TimeZone'', Setting = ''UTC''\<rparr>])", OF f])
qed

lemma sample_settings_denied:
  "err (settings_query sample_env h d settings_denied) = Some (PgError ''42501'')"
proof -
  have f: "snd (Metadata_fn (failing_run (PgError ''42501'')) 0) = Some (PgError ''42501'')"
    by (simp add: Metadata_fn_def failing_run_def)
  have n: "\<not> IsSerializationError sample_env (PgError ''42501'')"
    by (simp add: sample_env_def)
  have s: "settings_run settings_denied = failing_run (PgError ''42501'')"
    by (simp add: settings_denied_def)
  show ?thesis
    unfolding settings_query_def s
    by (simp only: failing_run_Transact [of "Metadata_fn (failing_run (PgError ''42501''))", OF f n])
qed

text \<open>
  On the first server the version and the settings are returned and the Aurora version is
  left out; on the second only the version is returned. Both calls return a nil error.
\<close>

theorem Metadata_tolerates_failure_witness:
  "(\<exists>metadata.
      Metadata sample_env sample_heap 0 plain_postgres = Some (metadata, None)
    \<and> map_of metadata ''postgresql_version'' = Some ''PostgreSQL 11.5''
    \<and> map_of metadata ''postgresql_aurora_version'' = None
    \<and> map_of metadata ''postgresql_setting_is_rds'' = Some ''true''
    \<and> map_of metadata ''postgresql_setting_TimeZone'' = Some ''UTC''
    \<and> map_of metadata ''postgresql_setting_data_directory'' = None)
   \<and> (\<exists>metadata.
      Metadata sample_env sample_heap 0 settings_denied = Some (metadata, None)
    \<and> map_of metadata ''postgresql_version'' = Some ''PostgreSQL 11.5''
    \<and> map_of metadata ''postgresql_aurora_version'' = None
    \<and> map_of metadata ''postgresql_setting_is_rds'' = None
    \<and> map_of metadata ''postgresql_setting_TimeZone'' = None)"
proof -
  have v: "version_run plain_postgres = working_run ''PostgreSQL 11.5''"
      "aurora_run plain_postgres = failing_run (PgError ''42883'')"
      "version_run settings_denied = working_run ''PostgreSQL 11.5''"
      "aurora_run settings_denied = failing_run (PgError ''42883'')"
    by (simp_all add: plain_postgres_def settings_denied_def)
  have k: "''postgresql_setting_is_rds'' = ''postgresql_setting_'' @ ''is_rds''"
      "''postgresql_setting_TimeZone'' = ''postgresql_setting_'' @ ''TimeZone''"
      "''postgresql_setting_data_directory'' = ''postgresql_setting_'' @ ''data_directory''"
    by simp_all
  from Metadata_tolerates_failure [of sample_env sample_heap 0 plain_postgres]
  obtain m1 where m1:
    "Metadata sample_env sample_heap 0 plain_postgres = Some (m1, None)"
    "map_of m1 ''postgresql_version'' = Some ''PostgreSQL 11.5''"
    "map_of m1 ''postgresql_aurora_version'' = None"
    "\<And>k. map_of m1 (''postgresql_setting_'' @ k)
       = map_of [(''is_rds'', ''true''), (''TimeZone'', ''UTC'')] k"
    unfolding v sample_getVersion sample_getAuroraVersion sample_settings_query settings_of_def
    by (auto simp only: option.case prod.case goval.case)
  from Metadata_tolerates_failure [of sample_env sample_heap 0 settings_denied]
  obtain m2 where m2:
    "Metadata sample_env sample_heap 0 settings_denied = Some (m2, None)"
    "map_of m2 ''postgresql_version'' = Some ''PostgreSQL 11.5''"
    "map_of m2 ''postgresql_aurora_version'' = None"
    "\<And>k. map_of m2 (''postgresql_setting_'' @ k) = None"
    unfolding v sample_getVersion sample_getAuroraVersion sample_settings_denied
    by (auto simp only: option.case prod.case)
  have a: "map_of m1 ''postgresql_setting_is_rds'' = Some ''true''"
      "map_of m1 ''postgresql_setting_TimeZone'' = Some ''UTC''"
      "map_of m1 ''postgresql_setting_data_directory'' = None"
    unfolding k m1(4) by simp_all
  have b: "map_of m2 ''postgresql_setting_is_rds'' = None"
      "map_of m2 ''postgresql_setting_TimeZone'' = None"
    unfolding k m2(4) by simp_all
  show ?thesis
    using m1(1,2,3) a m2(1,2,3) b by blast
qed

end
